theory Spec2Isabelle
  imports Main
begin

section \<open>JavaScript values\<close>

text \<open>
  The service (class \<open>OkxService\<close>, the variant that writes through \<open>LoggingService\<close>)
  is TypeScript: the interfaces \<open>OkxWsMessage\<close> and \<open>OkxOrderData\<close> are erased when it
  runs, and what \<open>JSON.parse\<close> returns is an untyped value. The model therefore works on
  JSON values and on JavaScript's own rules for reading a property, for truthiness and
  for the conversion to a string.

  A JavaScript string is a \<open>string\<close> here, one character per code unit; the texts the
  service compares against (\<open>pong\<close>, \<open>login\<close>, \<open>orders\<close>, ...) are ASCII. The Chinese
  labels of the two lookup tables are written as their UTF-8 bytes.

  A number is kept as the text \<open>Number.prototype.toString\<close> gives for it: the service
  only ever tests a number for truthiness and converts it to a string, and both are
  functions of that text (zero and minus zero print as \<open>0\<close>; \<open>JSON.parse\<close> yields no NaN).
\<close>

datatype json =
    JNull
  | JBool bool
  | JNum string
  | JStr string
  | JArr "json list"
  | JObj "(string \<times> json) list"

text \<open>
  A value the service handles: \<open>undefined\<close>, a JSON value, or a member that a plain object
  inherits from \<open>Object.prototype\<close> (named by its key).
\<close>

datatype jsval = Undefined | J json | Inherited string

datatype js_error =
    SyntaxError string
  | TypeError_property string
  | TypeError_not_iterable
  | TypeError_to_primitive

text \<open>The property names every plain object inherits (Node's \<open>Object.prototype\<close>).\<close>

definition Object_prototype :: "string list" where
  "Object_prototype =
     [''constructor'', ''__defineGetter__'', ''__defineSetter__'', ''hasOwnProperty'',
      ''__lookupGetter__'', ''__lookupSetter__'', ''isPrototypeOf'',
      ''propertyIsEnumerable'', ''toString'', ''valueOf'', ''__proto__'',
      ''toLocaleString'']"

text \<open>Truthiness, as \<open>if (v)\<close>, \<open>v && ...\<close> and \<open>v || ...\<close> test it.\<close>

fun truthy :: "jsval \<Rightarrow> bool" where
  "truthy Undefined = False"
| "truthy (J JNull) = False"
| "truthy (J (JBool b)) = b"
| "truthy (J (JNum n)) = (n \<noteq> ''0'')"
| "truthy (J (JStr s)) = (s \<noteq> [])"
| "truthy (J (JArr xs)) = True"
| "truthy (J (JObj kvs)) = True"
| "truthy (Inherited k) = True"

definition js_or :: "jsval \<Rightarrow> jsval \<Rightarrow> jsval" where
  "js_or a b = (if truthy a then a else b)"

fun join_comma :: "string list \<Rightarrow> string" where
  "join_comma [] = []"
| "join_comma [s] = s"
| "join_comma (s # t # ss) = s @ '','' @ join_comma (t # ss)"

text \<open>
  Conversion to a string (\<open>ToString\<close>, and \<open>ToPrimitive\<close> for the operands of \<open>+\<close> and
  for property keys). A plain object is converted by its \<open>toString\<close> member: the one from
  \<open>Object.prototype\<close> gives \<open>[object Object]\<close>, but an own property of that name, which
  in a parsed value is never a function, hides it, and then the conversion throws a
  \<open>TypeError\<close> (the inherited \<open>valueOf\<close> returns the object itself, and an own one is
  not a function either). An array joins the conversions of its elements with commas,
  a \<open>null\<close> element giving nothing, and throws when an element does.
\<close>

fun convertible :: "json \<Rightarrow> bool" where
  "convertible (JObj kvs) = (map_of kvs ''toString'' = None)"
| "convertible (JArr xs) = list_all convertible xs"
| "convertible j = True"

fun json_text :: "json \<Rightarrow> string" where
  "json_text JNull = ''null''"
| "json_text (JBool b) = (if b then ''true'' else ''false'')"
| "json_text (JNum n) = n"
| "json_text (JStr s) = s"
| "json_text (JArr xs) = join_comma (map (\<lambda>x. if x = JNull then [] else json_text x) xs)"
| "json_text (JObj kvs) = ''[object Object]''"

definition json_to_string :: "json \<Rightarrow> js_error + string" where
  "json_to_string j = (if convertible j then Inr (json_text j) else Inl TypeError_to_primitive)"

fun to_string :: "jsval \<Rightarrow> js_error + string" where
  "to_string Undefined = Inr ''undefined''"
| "to_string (J j) = json_to_string j"
| "to_string (Inherited k) =
     Inr (if k = ''__proto__'' then ''[object Object]''
          else ''function '' @ k @ ''() { [native code] }'')"

text \<open>
  Reading a property \<open>v.k\<close> of a value that is not \<open>null\<close>. Reading one of \<open>null\<close> throws;
  every caller below tests for \<open>JNull\<close> first and makes the throw a branch of its own.
  An object is the list of its own properties, read from the front (\<open>JSON.parse\<close> keeps
  one value per key), with the members of \<open>Object.prototype\<close> behind them.
  The names the service reads (\<open>event\<close>, \<open>code\<close>, \<open>msg\<close>, \<open>arg\<close>, \<open>channel\<close>, \<open>data\<close> and
  the order fields) are members of no built-in prototype of strings, numbers, booleans
  or arrays, so on those values the read is \<open>undefined\<close>.
\<close>

fun field :: "json \<Rightarrow> string \<Rightarrow> jsval" where
  "field (JObj kvs) k =
     (case map_of kvs k of
        Some v \<Rightarrow> J v
      | None \<Rightarrow> if k \<in> set Object_prototype then Inherited k else Undefined)"
| "field _ k = Undefined"

text \<open>Optional chaining \<open>v?.k\<close>: \<open>undefined\<close> when \<open>v\<close> is \<open>undefined\<close> or \<open>null\<close>.\<close>

fun opt_field :: "jsval \<Rightarrow> string \<Rightarrow> jsval" where
  "opt_field Undefined k = Undefined"
| "opt_field (J JNull) k = Undefined"
| "opt_field (J j) k = field j k"
| "opt_field (Inherited f) k = Undefined"

section \<open>The interface file: label tables\<close>

definition ORDER_STATE_MAP :: "(string \<times> string) list" where
  "ORDER_STATE_MAP =
     [(''canceled'',
         [CHR 0xE5, CHR 0xB7, CHR 0xB2, CHR 0xE6, CHR 0x92, CHR 0xA4, CHR 0xE9, CHR 0x94,
          CHR 0x80]),
      (''live'',
         [CHR 0xE7, CHR 0xAD, CHR 0x89, CHR 0xE5, CHR 0xBE, CHR 0x85, CHR 0xE6, CHR 0x88,
          CHR 0x90, CHR 0xE4, CHR 0xBA, CHR 0xA4]),
      (''partially_filled'',
         [CHR 0xE9, CHR 0x83, CHR 0xA8, CHR 0xE5, CHR 0x88, CHR 0x86, CHR 0xE6, CHR 0x88,
          CHR 0x90, CHR 0xE4, CHR 0xBA, CHR 0xA4]),
      (''filled'',
         [CHR 0xE5, CHR 0xAE, CHR 0x8C, CHR 0xE5, CHR 0x85, CHR 0xA8, CHR 0xE6, CHR 0x88,
          CHR 0x90, CHR 0xE4, CHR 0xBA, CHR 0xA4]),
      (''mmp_canceled'',
         [CHR 0xE5, CHR 0x81, CHR 0x9A, CHR 0xE5, CHR 0xB8, CHR 0x82, CHR 0xE5, CHR 0x95,
          CHR 0x86, CHR 0xE4, CHR 0xBF, CHR 0x9D, CHR 0xE6, CHR 0x8A, CHR 0xA4, CHR 0xE6,
          CHR 0x92, CHR 0xA4, CHR 0xE9, CHR 0x94, CHR 0x80])]"

definition ORDER_SIDE_MAP :: "(string \<times> string) list" where
  "ORDER_SIDE_MAP =
     [(''buy'', [CHR 0xE4, CHR 0xB9, CHR 0xB0, CHR 0xE5, CHR 0x85, CHR 0xA5]),
      (''sell'', [CHR 0xE5, CHR 0x8D, CHR 0x96, CHR 0xE5, CHR 0x87, CHR 0xBA])]"

text \<open>
  \<open>TABLE[key]\<close> on one of these object literals: the key is converted to a string, which
  may throw; an own entry wins, then a member inherited from \<open>Object.prototype\<close>, else
  \<open>undefined\<close>.
\<close>

definition table_lookup :: "(string \<times> string) list \<Rightarrow> jsval \<Rightarrow> js_error + jsval" where
  "table_lookup tbl key =
     (case to_string key of
        Inl e \<Rightarrow> Inl e
      | Inr k \<Rightarrow>
          Inr (case map_of tbl k of
                 Some v \<Rightarrow> J (JStr v)
               | None \<Rightarrow> if k \<in> set Object_prototype then Inherited k else Undefined))"

section \<open>Formatting an order\<close>

text \<open>
  \<open>formatSize\<close>: \<open>result = order.sz\<close>, and when \<open>order.avgPx\<close> is truthy and is neither the
  string \<open>0\<close> nor the empty string, \<open>result += ` @ ${order.avgPx}`\<close>: the template
  converts \<open>avgPx\<close>, then \<open>+\<close> converts \<open>result\<close>, and either conversion may throw.
\<close>

definition formatSize :: "json \<Rightarrow> js_error + jsval" where
  "formatSize order =
     (let result = field order ''sz''; avgPx = field order ''avgPx'' in
      if truthy avgPx \<and> avgPx \<noteq> J (JStr ''0'') \<and> avgPx \<noteq> J (JStr '''')
      then (case to_string avgPx of
              Inl e \<Rightarrow> Inl e
            | Inr a \<Rightarrow>
                (case to_string result of
                   Inl e \<Rightarrow> Inl e
                 | Inr z \<Rightarrow> Inr (J (JStr (z @ '' @ '' @ a)))))
      else Inr result)"

section \<open>Configuration and external collaborators\<close>

text \<open>
  The four values the constructor reads from \<open>ConfigService\<close>; they are taken as
  configured strings (a missing secret is a start-up fault outside this development).
\<close>

record config =
  apiKey :: string
  secretKey :: string
  passphrase :: string
  isSimulated :: bool

text \<open>One call of \<open>WechatService.sendOrderNotification(time, instId, side, size, state)\<close>.\<close>

record notification =
  n_time :: jsval
  n_instId :: jsval
  n_side :: jsval
  n_size :: jsval
  n_state :: jsval

text \<open>
  Library and collaborator code the service calls, taken as parameters:
  \<^item> \<open>JSON_parse\<close>: \<open>JSON.parse\<close>, \<open>Inl\<close> of the message when it throws a \<open>SyntaxError\<close>;
  \<^item> \<open>hmac_sha256_base64 key text\<close>:
    \<open>crypto.createHmac('sha256', key).update(text).digest('base64')\<close>;
  \<^item> \<open>date_toLocaleString text\<close>: \<open>new Date(parseInt(text)).toLocaleString('zh-CN', ...)\<close>,
    which depends on the host's time zone;
  \<^item> \<open>sendOrderNotification\<close>: the boolean the notification sink resolves to (it catches
    its own faults and then resolves to \<open>false\<close>); the first argument stands for the
    moment of the call, so that two equal notifications may fare differently.
\<close>

record externals =
  JSON_parse :: "string \<Rightarrow> string + json"
  hmac_sha256_base64 :: "string \<Rightarrow> string \<Rightarrow> string"
  date_toLocaleString :: "string \<Rightarrow> string"
  sendOrderNotification :: "nat \<Rightarrow> notification \<Rightarrow> bool"

section \<open>The log sink\<close>

datatype log_level = INFO | WARN | ERROR | DEBUG

datatype log_category = CONNECTION | AUTH | SUBSCRIBE | ORDER | NOTIFY | SYSTEM

text \<open>
  The message texts of the source are Chinese; each is named here after the call that
  writes it. \<open>Msg_connecting\<close> carries the mode text that the source splices into it.
\<close>

datatype log_text =
    Msg_service_init
  | Msg_service_destroy
  | Msg_connecting string
  | Msg_connected
  | Msg_socket_error
  | Msg_socket_closed
  | Msg_send_login
  | Msg_send_subscribe
  | Msg_plan_reconnect
  | Msg_login_ok
  | Msg_login_failed
  | Msg_subscribe_ok
  | Msg_okx_error
  | Msg_parse_failed
  | Msg_order_update
  | Msg_notify_ok
  | Msg_notify_failed

text \<open>The optional context of a log call: none, an object literal, or a value passed on.\<close>

datatype log_data = No_data | Fields "(string \<times> jsval) list" | Raw jsval

record log_entry =
  e_level :: log_level
  e_category :: log_category
  e_message :: log_text
  e_data :: log_data

text \<open>
  The public methods of \<open>LoggingService\<close>. Each prepends one entry to the log file and
  swallows its own faults; the entry's wall-clock timestamp is left out. The lines the
  service also writes to the console through \<open>this.logger\<close> touch no state and are not
  modelled.
\<close>

definition logConnection :: "log_text \<Rightarrow> log_data \<Rightarrow> log_entry" where
  "logConnection m d = \<lparr>e_level = INFO, e_category = CONNECTION, e_message = m, e_data = d\<rparr>"

definition logAuth :: "log_text \<Rightarrow> bool \<Rightarrow> log_data \<Rightarrow> log_entry" where
  "logAuth m success d =
     \<lparr>e_level = (if success then INFO else ERROR), e_category = AUTH, e_message = m,
      e_data = d\<rparr>"

definition logSubscribe :: "log_text \<Rightarrow> log_data \<Rightarrow> log_entry" where
  "logSubscribe m d = \<lparr>e_level = INFO, e_category = SUBSCRIBE, e_message = m, e_data = d\<rparr>"

definition logOrder :: "log_text \<Rightarrow> log_data \<Rightarrow> log_entry" where
  "logOrder m d = \<lparr>e_level = INFO, e_category = ORDER, e_message = m, e_data = d\<rparr>"

definition logNotify :: "log_text \<Rightarrow> bool \<Rightarrow> log_data \<Rightarrow> log_entry" where
  "logNotify m success d =
     \<lparr>e_level = (if success then INFO else ERROR), e_category = NOTIFY, e_message = m,
      e_data = d\<rparr>"

definition logSystem :: "log_level \<Rightarrow> log_text \<Rightarrow> log_data \<Rightarrow> log_entry" where
  "logSystem l m d = \<lparr>e_level = l, e_category = SYSTEM, e_message = m, e_data = d\<rparr>"

definition logError :: "log_category \<Rightarrow> log_text \<Rightarrow> log_data \<Rightarrow> log_entry" where
  "logError c m d = \<lparr>e_level = ERROR, e_category = c, e_message = m, e_data = d\<rparr>"

section \<open>The service's state and its effects\<close>

text \<open>
  What is handed to \<open>WebSocket.send\<close>: a literal text, or \<open>JSON.stringify\<close> of an object.
\<close>

datatype out_frame = Text string | Stringify json

text \<open>
  Everything the service does to the outside, in the order it does it. Sockets and timer
  handles are numbered in the order of their creation. \<open>Ws_send k f\<close> records the call of
  \<open>send\<close> on socket \<open>k\<close>, \<open>Notify n\<close> the call of the notification sink.
\<close>

datatype effect =
    New_WebSocket nat string
  | Ws_close nat
  | Ws_send nat out_frame
  | Set_interval nat nat
  | Clear_interval nat
  | Set_timeout nat nat
  | Clear_timeout nat
  | Notify notification
  | Log log_entry

datatype ready_state = CONNECTING | OPEN | CLOSING | CLOSED

text \<open>
  The five private fields of \<open>OkxService\<close>, and the part of the runtime they refer to:
  the \<open>readyState\<close> of each socket made so far, the next timer handle, the interval and
  timeout handles that are armed, and the effects so far.
\<close>

record okx =
  ws :: "nat option"
  pingInterval :: "nat option"
  reconnectTimeout :: "nat option"
  isConnecting :: bool
  shouldReconnect :: bool
  sockets :: "ready_state list"
  timers :: nat
  intervals :: "nat set"
  timeouts :: "nat set"
  effects :: "effect list"

definition constructed :: okx where
  "constructed =
     \<lparr>ws = None, pingInterval = None, reconnectTimeout = None, isConnecting = False,
      shouldReconnect = True, sockets = [], timers = 0, intervals = {}, timeouts = {},
      effects = []\<rparr>"

definition emit :: "effect \<Rightarrow> okx \<Rightarrow> okx" where
  "emit e s = s\<lparr>effects := effects s @ [e]\<rparr>"

section \<open>Signer\<close>

text \<open>
  \<open>sign(timestamp, method, requestPath, body = '')\<close>: the body is optional, and a call
  without it takes the default.
\<close>

definition sign ::
  "config \<Rightarrow> externals \<Rightarrow> string \<Rightarrow> string \<Rightarrow> string \<Rightarrow> string option \<Rightarrow> string" where
  "sign cfg ext timestamp method requestPath body =
     (let prehash = timestamp @ method @ requestPath @ (case body of None \<Rightarrow> [] | Some b \<Rightarrow> b)
      in hmac_sha256_base64 ext (secretKey cfg) prehash)"

section \<open>Connection manager\<close>

text \<open>
  The handlers are \<open>async\<close>, but every promise they await before touching the state comes
  from \<open>LoggingService\<close>, whose writes are synchronous: such an await only defers the rest
  of the handler to the end of the current turn of the event loop, before any other socket
  or timer event. Each handler is therefore one state transformer, with its effects in the
  order in which they happen.
\<close>

text \<open>
  \<open>ws.close()\<close>: a socket that is connecting or open starts closing; its \<open>close\<close> event
  comes later, from the runtime.
\<close>

definition ws_close :: "nat \<Rightarrow> okx \<Rightarrow> okx" where
  "ws_close k s =
     emit (Ws_close k)
       (if k < length (sockets s) \<and> (sockets s ! k = CONNECTING \<or> sockets s ! k = OPEN)
        then s\<lparr>sockets := (sockets s)[k := CLOSING]\<rparr>
        else s)"

text \<open>\<open>this.ws?.send(frame)\<close>: nothing happens when the socket reference is \<open>null\<close>.\<close>

definition ws_send :: "out_frame \<Rightarrow> okx \<Rightarrow> okx" where
  "ws_send frame s = (case ws s of None \<Rightarrow> s | Some k \<Rightarrow> emit (Ws_send k frame) s)"

definition cleanup :: "okx \<Rightarrow> okx" where
  "cleanup s =
     (let s1 = (case pingInterval s of
                  None \<Rightarrow> s
                | Some h \<Rightarrow>
                    (emit (Clear_interval h) (s\<lparr>intervals := intervals s - {h}\<rparr>))
                      \<lparr>pingInterval := None\<rparr>);
          s2 = (case reconnectTimeout s1 of
                  None \<Rightarrow> s1
                | Some h \<Rightarrow>
                    (emit (Clear_timeout h) (s1\<lparr>timeouts := timeouts s1 - {h}\<rparr>))
                      \<lparr>reconnectTimeout := None\<rparr>)
      in case ws s2 of
           None \<Rightarrow> s2
         | Some k \<Rightarrow> (ws_close k s2)\<lparr>ws := None\<rparr>)"

definition wsUrl :: "config \<Rightarrow> string" where
  "wsUrl cfg =
     (if isSimulated cfg then ''wss://wspap.okx.com:8443/ws/v5/private?brokerId=9999''
      else ''wss://ws.okx.com:8443/ws/v5/private'')"

text \<open>The mode text: simulated or live trading, in Chinese (UTF-8 bytes).\<close>

definition mode :: "config \<Rightarrow> string" where
  "mode cfg =
     (if isSimulated cfg
      then [CHR 0xE6, CHR 0xA8, CHR 0xA1, CHR 0xE6, CHR 0x8B, CHR 0x9F, CHR 0xE7, CHR 0x9B,
            CHR 0x98]
      else [CHR 0xE5, CHR 0xAE, CHR 0x9E, CHR 0xE7, CHR 0x9B, CHR 0x98])"

text \<open>
  \<open>connectWebSocket\<close>: the guard, then \<open>cleanup\<close>, then a new socket, which starts in
  \<open>CONNECTING\<close> and becomes the socket reference.
\<close>

definition connectWebSocket :: "config \<Rightarrow> okx \<Rightarrow> okx" where
  "connectWebSocket cfg s =
     (if isConnecting s then s
      else
        let s1 = cleanup (s\<lparr>isConnecting := True\<rparr>);
            s2 = emit (Log (logConnection (Msg_connecting (mode cfg))
                         (Fields [(''url'', J (JStr (wsUrl cfg)))]))) s1;
            k = length (sockets s2)
        in emit (New_WebSocket k (wsUrl cfg))
             (s2\<lparr>ws := Some k, sockets := sockets s2 @ [CONNECTING]\<rparr>))"

definition onModuleInit :: "config \<Rightarrow> okx \<Rightarrow> okx" where
  "onModuleInit cfg s =
     connectWebSocket cfg (emit (Log (logSystem INFO Msg_service_init No_data)) s)"

definition onModuleDestroy :: "okx \<Rightarrow> okx" where
  "onModuleDestroy s =
     cleanup ((emit (Log (logSystem INFO Msg_service_destroy No_data)) s)
                \<lparr>shouldReconnect := False\<rparr>)"

text \<open>Decimal digits of a natural number, for \<open>Number.prototype.toString\<close> on integers.\<close>

function decimal :: "nat \<Rightarrow> string" where
  "decimal n =
     (if n < 10 then [''0123456789'' ! n]
      else decimal (n div 10) @ [''0123456789'' ! (n mod 10)])"
  by pat_completeness auto
termination
  by (relation "measure id") auto

declare decimal.simps [simp del]

text \<open>
  \<open>login\<close>: the timestamp is \<open>Math.floor(Date.now() / 1000).toString()\<close>, with \<open>now\<close> the
  clock in milliseconds; the signature is \<open>sign(timestamp, 'GET', '/users/self/verify')\<close>,
  a call without body.
\<close>

definition loginMessage :: "config \<Rightarrow> externals \<Rightarrow> nat \<Rightarrow> json" where
  "loginMessage cfg ext now =
     (let timestamp = decimal (now div 1000);
          sig = sign cfg ext timestamp ''GET'' ''/users/self/verify'' None
      in JObj [(''op'', JStr ''login''),
               (''args'', JArr [JObj [(''apiKey'', JStr (apiKey cfg)),
                                      (''passphrase'', JStr (passphrase cfg)),
                                      (''timestamp'', JStr timestamp),
                                      (''sign'', JStr sig)]])])"

definition subscribeMessage :: json where
  "subscribeMessage =
     JObj [(''op'', JStr ''subscribe''),
           (''args'', JArr [JObj [(''channel'', JStr ''orders''),
                                  (''instType'', JStr ''ANY'')]])]"

definition subscribeOrders :: "okx \<Rightarrow> okx" where
  "subscribeOrders s =
     ws_send (Stringify subscribeMessage)
       (emit (Log (logSubscribe Msg_send_subscribe (Raw (J subscribeMessage)))) s)"

definition startPing :: "okx \<Rightarrow> okx" where
  "startPing s =
     (let h = timers s in
      emit (Set_interval h 25000)
        (s\<lparr>pingInterval := Some h, intervals := insert h (intervals s), timers := Suc h\<rparr>))"

text \<open>The interval's callback: a \<open>ping\<close> when the current socket is open.\<close>

definition on_ping :: "okx \<Rightarrow> okx" where
  "on_ping s =
     (case ws s of
        None \<Rightarrow> s
      | Some k \<Rightarrow>
          if k < length (sockets s) \<and> sockets s ! k = OPEN
          then emit (Ws_send k (Text ''ping'')) s
          else s)"

definition scheduleReconnect :: "okx \<Rightarrow> okx" where
  "scheduleReconnect s =
     (if \<not> shouldReconnect s then s
      else
        let s1 = emit (Log (logConnection Msg_plan_reconnect No_data)) s;
            h = timers s1
        in emit (Set_timeout h 5000)
             (s1\<lparr>reconnectTimeout := Some h, timeouts := insert h (timeouts s1),
                 timers := Suc h\<rparr>))"

text \<open>
  The \<open>open\<close> listener. \<open>login()\<close> is called without \<open>await\<close>: it writes its log entry at
  once and sends the request only after the listener has run on, so \<open>startPing()\<close> arms
  the interval in between.
\<close>

definition on_open :: "config \<Rightarrow> externals \<Rightarrow> nat \<Rightarrow> okx \<Rightarrow> okx" where
  "on_open cfg ext now s =
     (let s1 = emit (Log (logConnection Msg_connected
                       (Fields [(''url'', J (JStr (wsUrl cfg))),
                                (''mode'', J (JStr (mode cfg)))]))) s;
          s2 = s1\<lparr>isConnecting := False\<rparr>;
          s3 = emit (Log (logAuth Msg_send_login True
                       (Fields [(''apiKey'', J (JStr (take 8 (apiKey cfg) @ ''***'')))]))) s2;
          s4 = startPing s3
      in ws_send (Stringify (loginMessage cfg ext now)) s4)"

definition on_error :: "string \<Rightarrow> okx \<Rightarrow> okx" where
  "on_error m s =
     (emit (Log (logError CONNECTION Msg_socket_error (Fields [(''error'', J (JStr m))]))) s)
       \<lparr>isConnecting := False\<rparr>"

definition on_close :: "nat \<Rightarrow> string \<Rightarrow> okx \<Rightarrow> okx" where
  "on_close code reason s =
     scheduleReconnect
       ((emit (Log (logConnection Msg_socket_closed
                  (Fields [(''code'', J (JNum (decimal code))),
                           (''reason'', J (JStr reason))]))) s)
          \<lparr>isConnecting := False\<rparr>)"

section \<open>Order event dispatcher\<close>

text \<open>\<open>formatDate\<close>: \<open>parseInt\<close> converts its argument to a string first.\<close>

definition formatDate :: "externals \<Rightarrow> jsval \<Rightarrow> js_error + jsval" where
  "formatDate ext timestamp =
     (case to_string timestamp of
        Inl e \<Rightarrow> Inl e
      | Inr t \<Rightarrow> Inr (J (JStr (date_toLocaleString ext t))))"

text \<open>
  The five arguments of the sink call for one order, in the order in which
  \<open>handleOrderData\<close> builds them: the time, the instrument, \<open>ORDER_SIDE_MAP[order.side] ||
  order.side\<close>, the size, \<open>ORDER_STATE_MAP[order.state] || order.state\<close>. The first
  conversion that throws ends the building.
\<close>

definition render :: "externals \<Rightarrow> json \<Rightarrow> js_error + notification" where
  "render ext order =
     (case formatDate ext (field order ''uTime'') of
        Inl e \<Rightarrow> Inl e
      | Inr time_text \<Rightarrow>
     (case table_lookup ORDER_SIDE_MAP (field order ''side'') of
        Inl e \<Rightarrow> Inl e
      | Inr side_label \<Rightarrow>
     (case formatSize order of
        Inl e \<Rightarrow> Inl e
      | Inr size_text \<Rightarrow>
     (case table_lookup ORDER_STATE_MAP (field order ''state'') of
        Inl e \<Rightarrow> Inl e
      | Inr state_label \<Rightarrow>
          Inr \<lparr>n_time = time_text,
               n_instId = field order ''instId'',
               n_side = js_or side_label (field order ''side''),
               n_size = size_text,
               n_state = js_or state_label (field order ''state'')\<rparr>))))"

text \<open>
  The body of the \<open>for ... of\<close> loop, over the elements still to come. An element that is
  \<open>null\<close> throws at the first property read, before anything is logged. Otherwise the
  order log entry is written, then the arguments of the sink call are built; a throw
  there ends the loop with that log entry written and no sink call made. Otherwise:
  one awaited call of the sink, one notify log entry with the sink's answer, and the
  next element. The sink call waits for the network, and other events may be handled
  meanwhile; the loop reads and writes no field of the connection, and the effects of
  one frame are kept together here.
\<close>

fun dispatch :: "externals \<Rightarrow> json list \<Rightarrow> okx \<Rightarrow> okx \<times> js_error option" where
  "dispatch ext [] s = (s, None)"
| "dispatch ext (order # rest) s =
     (if order = JNull then (s, Some (TypeError_property ''ordId''))
      else
        let s1 = emit (Log (logOrder Msg_order_update
                         (Fields [(''ordId'', field order ''ordId''),
                                  (''instId'', field order ''instId''),
                                  (''side'', field order ''side''),
                                  (''state'', field order ''state''),
                                  (''sz'', field order ''sz''),
                                  (''px'', field order ''px''),
                                  (''avgPx'', field order ''avgPx''),
                                  (''pnl'', field order ''pnl'')]))) s
        in case render ext order of
             Inl e \<Rightarrow> (s1, Some e)
           | Inr n \<Rightarrow>
               let success = sendOrderNotification ext (length (effects s1)) n;
                   s2 = emit (Notify n) s1;
                   s3 = emit (Log (logNotify
                                (if success then Msg_notify_ok else Msg_notify_failed)
                                success
                                (Fields [(''ordId'', field order ''ordId''),
                                         (''instId'', n_instId n),
                                         (''side'', n_side n),
                                         (''size'', n_size n),
                                         (''state'', n_state n)]))) s2
               in dispatch ext rest s3)"

text \<open>
  \<open>handleOrderData(message.data)\<close>, reached with a truthy value only: an array is iterated
  element by element, a string character by character, and anything else is not
  iterable.
\<close>

fun handleOrderData :: "externals \<Rightarrow> jsval \<Rightarrow> okx \<Rightarrow> okx \<times> js_error option" where
  "handleOrderData ext (J (JArr orders)) s = dispatch ext orders s"
| "handleOrderData ext (J (JStr cs)) s = dispatch ext (map (\<lambda>c. JStr [c]) cs) s"
| "handleOrderData ext _ s = (s, Some TypeError_not_iterable)"

section \<open>Message decoder\<close>

text \<open>
  The \<open>try\<close> block of \<open>handleMessage\<close> on the parsed value: the new state, and the error
  thrown, if any. \<open>JSON.parse\<close> may return \<open>null\<close>, whose first property read throws. The
  console lines of the login-failure and error branches splice \<open>message.msg\<close> (and
  \<open>message.code\<close>) into a template before the log sink is called: a conversion that
  throws there leaves the branch for the \<open>catch\<close>. The other console lines splice
  constants or \<open>JSON.stringify\<close> of a parsed value, which does not throw.
\<close>

definition handleMessage_try :: "externals \<Rightarrow> json \<Rightarrow> okx \<Rightarrow> okx \<times> js_error option" where
  "handleMessage_try ext message s =
     (if message = JNull then (s, Some (TypeError_property ''event''))
      else if field message ''event'' = J (JStr ''login'') then
        (if field message ''code'' = J (JStr ''0'')
         then (subscribeOrders (emit (Log (logAuth Msg_login_ok True No_data)) s), None)
         else
           (case to_string (field message ''msg'') of
              Inl e \<Rightarrow> (s, Some e)
            | Inr text_msg \<Rightarrow>
                (emit (Log (logAuth Msg_login_failed False
                         (Fields [(''code'', field message ''code''),
                                  (''msg'', field message ''msg'')]))) s, None)))
      else if field message ''event'' = J (JStr ''subscribe'') then
        (emit (Log (logSubscribe Msg_subscribe_ok (Raw (field message ''arg'')))) s, None)
      else if field message ''event'' = J (JStr ''error'') then
        (case to_string (field message ''msg'') of
           Inl e \<Rightarrow> (s, Some e)
         | Inr text_msg \<Rightarrow>
             (case to_string (field message ''code'') of
                Inl e \<Rightarrow> (s, Some e)
              | Inr text_code \<Rightarrow>
                  (emit (Log (logError SYSTEM Msg_okx_error
                           (Fields [(''code'', field message ''code''),
                                    (''msg'', field message ''msg'')]))) s, None)))
      else if opt_field (field message ''arg'') ''channel'' = J (JStr ''orders'')
              \<and> truthy (field message ''data'')
      then handleOrderData ext (field message ''data'') s
      else (s, None))"

text \<open>The \<open>message\<close> property of an error, as V8 words it.\<close>

fun error_message :: "js_error \<Rightarrow> string" where
  "error_message (SyntaxError m) = m"
| "error_message (TypeError_property k) =
     ''Cannot read properties of null (reading '' @ [CHR 0x27] @ k @ [CHR 0x27] @ '')''"
| "error_message TypeError_not_iterable = ''orders is not iterable''"
| "error_message TypeError_to_primitive = ''Cannot convert object to primitive value''"

text \<open>
  \<open>handleMessage\<close>: the \<open>pong\<close> test on the raw text, then the \<open>try\<close> block, then the
  \<open>catch\<close>, which logs the error with the first 500 characters of the raw text
  (\<open>messageStr.substring(0, 500)\<close>) and returns.
\<close>

definition handleMessage :: "externals \<Rightarrow> string \<Rightarrow> okx \<Rightarrow> okx" where
  "handleMessage ext messageStr s =
     (if messageStr = ''pong'' then s
      else
        let (s', thrown) =
              (case JSON_parse ext messageStr of
                 Inl m \<Rightarrow> (s, Some (SyntaxError m))
               | Inr message \<Rightarrow> handleMessage_try ext message s)
        in case thrown of
             None \<Rightarrow> s'
           | Some e \<Rightarrow>
               emit (Log (logError SYSTEM Msg_parse_failed
                       (Fields [(''error'', J (JStr (error_message e))),
                                (''rawMessage'', J (JStr (take 500 messageStr)))]))) s')"

section \<open>Events\<close>

text \<open>
  What the runtime delivers: the four socket events (with the socket they come from),
  a tick of an interval, the firing of a timeout, and the host's shutdown hook. The
  \<open>open\<close> event carries the clock reading \<open>login\<close> takes.
\<close>

datatype event =
    Ev_open nat nat
  | Ev_message nat string
  | Ev_error nat string
  | Ev_close nat nat string
  | Ev_tick nat
  | Ev_timeout nat
  | Ev_destroy

text \<open>
  When the runtime can deliver an event: \<open>open\<close> once, to a connecting socket; messages
  while the socket is open or closing; \<open>error\<close> and \<open>close\<close> to a socket that has not
  closed, and \<open>close\<close> only once; a tick or a timeout only for an armed handle.
\<close>

fun enabled :: "okx \<Rightarrow> event \<Rightarrow> bool" where
  "enabled s (Ev_open k now) = (k < length (sockets s) \<and> sockets s ! k = CONNECTING)"
| "enabled s (Ev_message k frame) =
     (k < length (sockets s) \<and> (sockets s ! k = OPEN \<or> sockets s ! k = CLOSING))"
| "enabled s (Ev_error k m) = (k < length (sockets s) \<and> sockets s ! k \<noteq> CLOSED)"
| "enabled s (Ev_close k code reason) = (k < length (sockets s) \<and> sockets s ! k \<noteq> CLOSED)"
| "enabled s (Ev_tick h) = (h \<in> intervals s)"
| "enabled s (Ev_timeout h) = (h \<in> timeouts s)"
| "enabled s Ev_destroy = True"

text \<open>
  The runtime's own change (the socket's \<open>readyState\<close>, the timeout being spent), then the
  listener. The listeners are closures over \<open>this\<close>: they act on the current socket
  reference, whichever socket the event comes from.
\<close>

fun deliver :: "config \<Rightarrow> externals \<Rightarrow> event \<Rightarrow> okx \<Rightarrow> okx" where
  "deliver cfg ext (Ev_open k now) s = on_open cfg ext now (s\<lparr>sockets := (sockets s)[k := OPEN]\<rparr>)"
| "deliver cfg ext (Ev_message k frame) s = handleMessage ext frame s"
| "deliver cfg ext (Ev_error k m) s = on_error m (s\<lparr>sockets := (sockets s)[k := CLOSING]\<rparr>)"
| "deliver cfg ext (Ev_close k code reason) s =
     on_close code reason (s\<lparr>sockets := (sockets s)[k := CLOSED]\<rparr>)"
| "deliver cfg ext (Ev_tick h) s = on_ping s"
| "deliver cfg ext (Ev_timeout h) s = connectWebSocket cfg (s\<lparr>timeouts := timeouts s - {h}\<rparr>)"
| "deliver cfg ext Ev_destroy s = onModuleDestroy s"

text \<open>A run: every event is delivered when it is enabled; \<open>None\<close> when one is not.\<close>

fun run :: "config \<Rightarrow> externals \<Rightarrow> event list \<Rightarrow> okx \<Rightarrow> okx option" where
  "run cfg ext [] s = Some s"
| "run cfg ext (e # es) s = (if enabled s e then run cfg ext es (deliver cfg ext e s) else None)"

section \<open>Reading the effects\<close>

text \<open>The sink calls, the frames sent, the log entries and the sockets made, in order.\<close>

fun notified :: "effect list \<Rightarrow> notification list" where
  "notified [] = []"
| "notified (Notify n # es) = n # notified es"
| "notified (e # es) = notified es"

fun sent :: "effect list \<Rightarrow> (nat \<times> out_frame) list" where
  "sent [] = []"
| "sent (Ws_send k f # es) = (k, f) # sent es"
| "sent (e # es) = sent es"

fun logged :: "effect list \<Rightarrow> log_entry list" where
  "logged [] = []"
| "logged (Log l # es) = l # logged es"
| "logged (e # es) = logged es"

fun created :: "effect list \<Rightarrow> nat list" where
  "created [] = []"
| "created (New_WebSocket k url # es) = k # created es"
| "created (e # es) = created es"

section \<open>Sample inputs\<close>

text \<open>
  Frames as the exchange words them, with what \<open>JSON.parse\<close> makes of each. The sample
  collaborators are used at these frames only: \<open>sample_parse\<close> agrees with \<open>JSON.parse\<close> on
  them, as well as on the truncated frame and on every other text that is not JSON; the
  stand-in for the keyed hash just shows its two arguments.
\<close>

definition sample_order :: json where
  "sample_order =
     JObj [(''side'', JStr ''buy''), (''state'', JStr ''filled''), (''sz'', JStr ''0.1''),
           (''avgPx'', JStr ''95000''), (''instId'', JStr ''BTC-USDT''),
           (''uTime'', JStr ''1735200600000'')]"

definition frame_orders :: string where
  \<open>frame_orders =
     ''{"arg":{"channel":"orders"},"data":[{"side":"buy","state":"filled","sz":"0.1","avgPx":"95000","instId":"BTC-USDT","uTime":"1735200600000"}]}''\<close>

definition frame_login_ok :: string where
  \<open>frame_login_ok = ''{"event":"login","code":"0"}''\<close>

definition frame_login_failed :: string where
  \<open>frame_login_failed = ''{"event":"login","code":"60009","msg":"Login failed."}''\<close>

definition frame_login_refused :: string where
  \<open>frame_login_refused = ''{"event":"login","code":"60009","msg":{"toString":1}}''\<close>

definition frame_orders_number :: string where
  \<open>frame_orders_number = ''{"arg":{"channel":"orders"},"data":1}''\<close>

definition frame_orders_text :: string where
  \<open>frame_orders_text = ''{"arg":{"channel":"orders"},"data":"ab"}''\<close>

definition frame_error_orders :: string where
  \<open>frame_error_orders =
     ''{"event":"error","code":"60012","msg":"Bad request","arg":{"channel":"orders"},"data":[{"side":"buy","state":"filled","sz":"0.1","avgPx":"95000","instId":"BTC-USDT","uTime":"1735200600000"}]}''\<close>

definition frame_malformed :: string where
  \<open>frame_malformed = ''{"event":''\<close>

definition frame_conn_count :: string where
  \<open>frame_conn_count =
     ''{"event":"channel-conn-count","channel":"orders","connCount":"1","connId":"a4d3ae55"}''\<close>

definition sample_parse :: "string \<Rightarrow> string + json" where
  "sample_parse text =
     (if text = frame_orders then
        Inr (JObj [(''arg'', JObj [(''channel'', JStr ''orders'')]),
                   (''data'', JArr [sample_order])])
      else if text = frame_login_ok then
        Inr (JObj [(''event'', JStr ''login''), (''code'', JStr ''0'')])
      else if text = frame_login_failed then
        Inr (JObj [(''event'', JStr ''login''), (''code'', JStr ''60009''),
                   (''msg'', JStr ''Login failed.'')])
      else if text = frame_login_refused then
        Inr (JObj [(''event'', JStr ''login''), (''code'', JStr ''60009''),
                   (''msg'', JObj [(''toString'', JNum ''1'')])])
      else if text = frame_orders_number then
        Inr (JObj [(''arg'', JObj [(''channel'', JStr ''orders'')]), (''data'', JNum ''1'')])
      else if text = frame_orders_text then
        Inr (JObj [(''arg'', JObj [(''channel'', JStr ''orders'')]), (''data'', JStr ''ab'')])
      else if text = frame_error_orders then
        Inr (JObj [(''event'', JStr ''error''), (''code'', JStr ''60012''),
                   (''msg'', JStr ''Bad request''),
                   (''arg'', JObj [(''channel'', JStr ''orders'')]),
                   (''data'', JArr [sample_order])])
      else if text = frame_conn_count then
        Inr (JObj [(''event'', JStr ''channel-conn-count''), (''channel'', JStr ''orders''),
                   (''connCount'', JStr ''1''), (''connId'', JStr ''a4d3ae55'')])
      else if text = ''{}'' then Inr (JObj [])
      else if text = ''null'' then Inr JNull
      else Inl ''Unexpected end of JSON input'')"

definition sample_ext :: externals where
  "sample_ext =
     \<lparr>JSON_parse = sample_parse,
      hmac_sha256_base64 = (\<lambda>key text. ''mac('' @ key @ '','' @ text @ '')''),
      date_toLocaleString = (\<lambda>text. text),
      sendOrderNotification = (\<lambda>moment n. True)\<rparr>"

definition sample_cfg :: config where
  "sample_cfg =
     \<lparr>apiKey = ''0123456789abcdef'', secretKey = ''secret'', passphrase = ''phrase'',
      isSimulated = True\<rparr>"

definition sample_opened :: okx where
  "sample_opened =
     deliver sample_cfg sample_ext (Ev_open 0 1735200600000) (onModuleInit sample_cfg constructed)"

definition sample_closed :: okx where
  "sample_closed = deliver sample_cfg sample_ext (Ev_close 0 1006 []) sample_opened"

definition sample_stopped :: okx where
  "sample_stopped = deliver sample_cfg sample_ext Ev_destroy sample_opened"

definition sample_reopened :: okx where
  "sample_reopened = deliver sample_cfg sample_ext (Ev_timeout 1) sample_closed"

definition sample_after :: okx where
  "sample_after =
     deliver sample_cfg sample_ext (Ev_close 0 1000 [])
       (deliver sample_cfg sample_ext (Ev_message 0 frame_login_ok) sample_stopped)"

definition sample_relogin :: okx where
  "sample_relogin =
     deliver sample_cfg sample_ext (Ev_message 0 frame_login_ok)
       (deliver sample_cfg sample_ext (Ev_message 0 frame_login_failed) sample_opened)"

section \<open>Predicates used in the statements and proofs\<close>

text \<open>
  An order record, as the interface \<open>OkxOrderData\<close> declares it: an object whose declared
  fields are strings. The predicate asks this of the declared fields that are there: it
  requires no field, and it allows properties that the interface does not name.
\<close>

definition OkxOrderData_fields :: "string list" where
  "OkxOrderData_fields =
     [''instType'', ''instId'', ''ordId'', ''clOrdId'', ''tag'', ''px'', ''sz'', ''ordType'',
      ''side'', ''posSide'', ''tdMode'', ''accFillSz'', ''fillPx'', ''tradeId'', ''fillSz'',
      ''fillTime'', ''state'', ''avgPx'', ''lever'', ''tpTriggerPx'', ''tpOrdPx'',
      ''slTriggerPx'', ''slOrdPx'', ''feeCcy'', ''fee'', ''rebateCcy'', ''rebate'', ''pnl'',
      ''category'', ''uTime'', ''cTime'', ''reqId'', ''amendResult'', ''code'', ''msg'']"

fun is_string :: "json \<Rightarrow> bool" where
  "is_string (JStr s) = True"
| "is_string j = False"

fun OkxOrderData :: "json \<Rightarrow> bool" where
  "OkxOrderData (JObj kvs) =
     list_all (\<lambda>k. case map_of kvs k of None \<Rightarrow> True | Some v \<Rightarrow> is_string v)
       OkxOrderData_fields"
| "OkxOrderData j = False"


text \<open>The requests among the frames sent: those made with \<open>JSON.stringify\<close>.\<close>

fun requests :: "(nat \<times> out_frame) list \<Rightarrow> (nat \<times> json) list" where
  "requests [] = []"
| "requests ((k, Stringify j) # fs) = (k, j) # requests fs"
| "requests ((k, Text t) # fs) = requests fs"

text \<open>
  The decoder's test for a login reply that succeeded: the text is not \<open>pong\<close>, it parses,
  and the parsed value has \<open>event === 'login'\<close> and \<open>code === '0'\<close>.
\<close>

definition is_login_success :: "externals \<Rightarrow> string \<Rightarrow> bool" where
  "is_login_success ext frame =
     (frame \<noteq> ''pong'' \<and>
      (case JSON_parse ext frame of
         Inl m \<Rightarrow> False
       | Inr message \<Rightarrow>
           message \<noteq> JNull \<and> field message ''event'' = J (JStr ''login'')
           \<and> field message ''code'' = J (JStr ''0'')))"

text \<open>
  The events of a connection that leave its socket reference alone: messages, ticks of
  the heartbeat and socket errors.
\<close>

fun keeps_socket :: "event \<Rightarrow> bool" where
  "keeps_socket (Ev_message k frame) = True"
| "keeps_socket (Ev_tick h) = True"
| "keeps_socket (Ev_error k m) = True"
| "keeps_socket e = False"

fun is_success_event :: "externals \<Rightarrow> event \<Rightarrow> bool" where
  "is_success_event ext (Ev_message k frame) = is_login_success ext frame"
| "is_success_event ext e = False"

text \<open>The sockets that can still emit events: those that have not closed.\<close>

definition live_of :: "ready_state list \<Rightarrow> nat set" where
  "live_of xs = {k. k < length xs \<and> xs ! k \<noteq> CLOSED}"

text \<open>
  Invariant of the runs that start with \<open>onModuleInit\<close>: the only timers that can be
  armed are those whose handles are stored; no timeout is armed while a socket can still
  emit events, and at most one socket can; a socket that is still connecting is the
  current one, and no interval is armed while it connects.
\<close>

definition run_inv :: "okx \<Rightarrow> bool" where
  "run_inv s \<longleftrightarrow>
     timeouts s \<subseteq> set_option (reconnectTimeout s)
     \<and> intervals s \<subseteq> set_option (pingInterval s)
     \<and> (timeouts s = {} \<or> live_of (sockets s) = {})
     \<and> (\<forall>j \<in> live_of (sockets s). \<forall>k \<in> live_of (sockets s). j = k)
     \<and> (\<forall>k < length (sockets s). sockets s ! k = CONNECTING \<longrightarrow> ws s = Some k \<and> intervals s = {})"

text \<open>
  After shutdown: reconnection is off, no timer is armed, there is no socket reference
  and no socket is still connecting.
\<close>

definition stopped :: "okx \<Rightarrow> bool" where
  "stopped s \<longleftrightarrow>
     \<not> shouldReconnect s \<and> timeouts s = {} \<and> intervals s = {} \<and> ws s = None
     \<and> (\<forall>k < length (sockets s). sockets s ! k \<noteq> CONNECTING)"

section \<open>Properties\<close>

lemmas sample_defs = sample_ext_def sample_parse_def frame_orders_def frame_login_ok_def
  frame_login_failed_def frame_login_refused_def frame_orders_number_def
  frame_orders_text_def frame_error_orders_def frame_malformed_def frame_conn_count_def
  sample_order_def sample_cfg_def

subsection \<open>Effects of the building blocks\<close>

lemma notified_append: "notified (xs @ ys) = notified xs @ notified ys"
  by (induction xs rule: notified.induct) simp_all

lemma sent_append: "sent (xs @ ys) = sent xs @ sent ys"
  by (induction xs rule: sent.induct) simp_all

lemma logged_append: "logged (xs @ ys) = logged xs @ logged ys"
  by (induction xs rule: logged.induct) simp_all

lemma created_append: "created (xs @ ys) = created xs @ created ys"
  by (induction xs rule: created.induct) simp_all

lemma effects_emit: "effects (emit e s) = effects s @ [e]"
  by (simp add: emit_def)

lemma cleanup_isConnecting: "isConnecting (cleanup s) = isConnecting s"
  by (simp add: cleanup_def Let_def emit_def ws_close_def split: option.splits)

lemma cleanup_sockets_length: "length (sockets (cleanup s)) = length (sockets s)"
  by (simp add: cleanup_def Let_def emit_def ws_close_def split: option.splits)

lemma cleanup_created: "created (effects (cleanup s)) = created (effects s)"
  by (simp add: cleanup_def Let_def emit_def ws_close_def created_append split: option.splits)

lemma cleanup_fields:
  "ws (cleanup s) = None" "pingInterval (cleanup s) = None" "reconnectTimeout (cleanup s) = None"
  "shouldReconnect (cleanup s) = shouldReconnect s" "timers (cleanup s) = timers s"
  "intervals (cleanup s) = intervals s - set_option (pingInterval s)"
  "timeouts (cleanup s) = timeouts s - set_option (reconnectTimeout s)"
  by (simp_all add: cleanup_def Let_def emit_def ws_close_def split: option.splits)

lemma connect_sets_guard: "isConnecting (connectWebSocket cfg s)"
  by (simp add: connectWebSocket_def Let_def emit_def cleanup_isConnecting)

lemma connect_when_guarded: "isConnecting s \<Longrightarrow> (connectWebSocket cfg ^^ n) s = s"
  by (induction n) (simp_all add: connectWebSocket_def)

lemma connect_creates_one:
  "\<not> isConnecting s \<Longrightarrow>
   created (effects (connectWebSocket cfg s)) = created (effects s) @ [length (sockets s)]"
  by (simp add: connectWebSocket_def Let_def emit_def created_append cleanup_created
      cleanup_sockets_length)

lemma cleanup_sockets:
  "sockets (cleanup s) =
     (case ws s of
        None \<Rightarrow> sockets s
      | Some k \<Rightarrow>
          if k < length (sockets s) \<and> (sockets s ! k = CONNECTING \<or> sockets s ! k = OPEN)
          then (sockets s)[k := CLOSING] else sockets s)"
  by (auto simp: cleanup_def Let_def emit_def ws_close_def split: option.splits)

lemma on_open_fields:
  "ws (on_open cfg ext now s) = ws s"
  "sockets (on_open cfg ext now s) = sockets s"
  "timeouts (on_open cfg ext now s) = timeouts s"
  "reconnectTimeout (on_open cfg ext now s) = reconnectTimeout s"
  "shouldReconnect (on_open cfg ext now s) = shouldReconnect s"
  "pingInterval (on_open cfg ext now s) = Some (timers s)"
  "intervals (on_open cfg ext now s) = insert (timers s) (intervals s)"
  "created (effects (on_open cfg ext now s)) = created (effects s)"
  by (auto simp: on_open_def Let_def emit_def startPing_def ws_send_def created_append
      split: option.splits)

lemma on_ping_fields:
  "ws (on_ping s) = ws s" "sockets (on_ping s) = sockets s" "timeouts (on_ping s) = timeouts s"
  "reconnectTimeout (on_ping s) = reconnectTimeout s"
  "shouldReconnect (on_ping s) = shouldReconnect s"
  "pingInterval (on_ping s) = pingInterval s" "intervals (on_ping s) = intervals s"
  "created (effects (on_ping s)) = created (effects s)"
  by (auto simp: on_ping_def emit_def created_append split: option.splits)

lemma on_error_fields:
  "ws (on_error m s) = ws s" "sockets (on_error m s) = sockets s"
  "timeouts (on_error m s) = timeouts s" "reconnectTimeout (on_error m s) = reconnectTimeout s"
  "shouldReconnect (on_error m s) = shouldReconnect s"
  "pingInterval (on_error m s) = pingInterval s" "intervals (on_error m s) = intervals s"
  "created (effects (on_error m s)) = created (effects s)"
  by (simp_all add: on_error_def emit_def created_append)

lemma on_close_fields:
  "ws (on_close code reason s) = ws s" "sockets (on_close code reason s) = sockets s"
  "shouldReconnect (on_close code reason s) = shouldReconnect s"
  "pingInterval (on_close code reason s) = pingInterval s"
  "intervals (on_close code reason s) = intervals s"
  "created (effects (on_close code reason s)) = created (effects s)"
  "timeouts (on_close code reason s)
     = (if shouldReconnect s then insert (timers s) (timeouts s) else timeouts s)"
  "reconnectTimeout (on_close code reason s)
     = (if shouldReconnect s then Some (timers s) else reconnectTimeout s)"
  by (simp_all add: on_close_def scheduleReconnect_def emit_def Let_def created_append)

lemma destroy_fields:
  "ws (onModuleDestroy s) = None" "pingInterval (onModuleDestroy s) = None"
  "reconnectTimeout (onModuleDestroy s) = None" "\<not> shouldReconnect (onModuleDestroy s)"
  "intervals (onModuleDestroy s) = intervals s - set_option (pingInterval s)"
  "timeouts (onModuleDestroy s) = timeouts s - set_option (reconnectTimeout s)"
  "created (effects (onModuleDestroy s)) = created (effects s)"
  "sockets (onModuleDestroy s) = sockets (cleanup s)"
  by (auto simp: onModuleDestroy_def cleanup_fields cleanup_created emit_def created_append
      cleanup_sockets split: option.splits)

subsection \<open>What a handler can change\<close>

lemma dispatch_appends:
  "\<exists>es. fst (dispatch ext orders s) = s\<lparr>effects := effects s @ es\<rparr>
        \<and> created es = [] \<and> sent es = []"
proof (induction orders arbitrary: s)
  case Nil
  have "s = s\<lparr>effects := effects s @ []\<rparr>" by simp
  then show ?case by (metis created.simps(1) sent.simps(1) dispatch.simps(1) fst_conv)
next
  case (Cons order rest)
  show ?case
  proof (cases "order = JNull")
    case True
    have "s = s\<lparr>effects := effects s @ []\<rparr>" by simp
    with True show ?thesis
      by (metis created.simps(1) sent.simps(1) dispatch.simps(2) fst_conv)
  next
    case False
    show ?thesis
    proof (cases "render ext order")
      case (Inl e)
      obtain a where "fst (dispatch ext (order # rest) s) = s\<lparr>effects := effects s @ [Log a]\<rparr>"
        using False Inl by (simp add: Let_def emit_def)
      moreover have "created [Log a] = []" "sent [Log a] = []" by simp_all
      ultimately show ?thesis by metis
    next
      case (Inr n)
      obtain a c where step: "dispatch ext (order # rest) s
          = dispatch ext rest (s\<lparr>effects := effects s @ [Log a, Notify n, Log c]\<rparr>)"
        using False Inr by (simp add: Let_def emit_def)
      from Cons.IH [of "s\<lparr>effects := effects s @ [Log a, Notify n, Log c]\<rparr>"]
      obtain es where es: "fst (dispatch ext rest (s\<lparr>effects := effects s @ [Log a, Notify n, Log c]\<rparr>))
          = s\<lparr>effects := effects s @ [Log a, Notify n, Log c] @ es\<rparr>"
          "created es = []" "sent es = []"
        by auto
      have "created ([Log a, Notify n, Log c] @ es) = []"
        "sent ([Log a, Notify n, Log c] @ es) = []"
        using es(2,3) by simp_all
      with step es(1) show ?thesis by metis
    qed
  qed
qed

lemma handleOrderData_appends:
  "\<exists>es. fst (handleOrderData ext v s) = s\<lparr>effects := effects s @ es\<rparr>
        \<and> created es = [] \<and> sent es = []"
proof -
  have triv: "\<exists>es. s = s\<lparr>effects := effects s @ es\<rparr> \<and> created es = [] \<and> sent es = []"
    by (rule exI [of _ "[]"]) simp
  show ?thesis
    by (cases "(ext, v, s)" rule: handleOrderData.cases) (simp_all add: dispatch_appends triv)
qed

text \<open>The frames a message makes the handler send: one subscribe request, or none.\<close>

lemma handleMessage_appends:
  "\<exists>es. handleMessage ext frame s = s\<lparr>effects := effects s @ es\<rparr>
        \<and> created es = []
        \<and> sent es = (if is_login_success ext frame
                      then (case ws s of None \<Rightarrow> [] | Some k \<Rightarrow> [(k, Stringify subscribeMessage)])
                      else [])"
proof (cases "frame = ''pong''")
  case True
  then show ?thesis
    by (intro exI [of _ "[]"]) (simp add: handleMessage_def is_login_success_def)
next
  case notpong: False
  show ?thesis
  proof (cases "JSON_parse ext frame")
    case (Inl m)
    then show ?thesis using notpong
      by (intro exI [of _ "[Log (logError SYSTEM Msg_parse_failed
                     (Fields [(''error'', J (JStr m)),
                              (''rawMessage'', J (JStr (take 500 frame)))]))]"])
        (simp add: handleMessage_def is_login_success_def emit_def)
  next
    case (Inr message)
    have thrown: "\<exists>es. (case thrown of None \<Rightarrow> s'
           | Some e \<Rightarrow> emit (Log (logError SYSTEM Msg_parse_failed
                       (Fields [(''error'', J (JStr (error_message e))),
                                (''rawMessage'', J (JStr (take 500 frame)))]))) s')
          = s\<lparr>effects := effects s @ es\<rparr> \<and> created es = [] \<and> sent es = sent es0"
      if "s' = s\<lparr>effects := effects s @ es0\<rparr>" "created es0 = []" for s' thrown es0
    proof (cases thrown)
      case None
      with that show ?thesis by auto
    next
      case (Some e)
      with that show ?thesis
        by (intro exI [of _ "es0 @ [Log (logError SYSTEM Msg_parse_failed
                       (Fields [(''error'', J (JStr (error_message e))),
                                (''rawMessage'', J (JStr (take 500 frame)))]))]"])
          (simp add: emit_def created_append sent_append)
    qed
    have hm: "handleMessage ext frame s =
        (case snd (handleMessage_try ext message s) of None \<Rightarrow> fst (handleMessage_try ext message s)
           | Some e \<Rightarrow> emit (Log (logError SYSTEM Msg_parse_failed
                       (Fields [(''error'', J (JStr (error_message e))),
                                (''rawMessage'', J (JStr (take 500 frame)))])))
                     (fst (handleMessage_try ext message s)))"
      using notpong Inr
      by (cases "handleMessage_try ext message s")
        (auto simp: handleMessage_def split: option.splits)
    have ls: "is_login_success ext frame \<longleftrightarrow>
        message \<noteq> JNull \<and> field message ''event'' = J (JStr ''login'')
        \<and> field message ''code'' = J (JStr ''0'')"
      using notpong Inr by (simp add: is_login_success_def)
    have tried: "\<exists>es0. fst (handleMessage_try ext message s) = s\<lparr>effects := effects s @ es0\<rparr>
        \<and> created es0 = []
        \<and> sent es0 = (if is_login_success ext frame
                      then (case ws s of None \<Rightarrow> [] | Some k \<Rightarrow> [(k, Stringify subscribeMessage)])
                      else [])"
    proof -
      consider (null) "message = JNull"
        | (ok) "message \<noteq> JNull" "field message ''event'' = J (JStr ''login'')"
            "field message ''code'' = J (JStr ''0'')"
        | (failed) "message \<noteq> JNull" "field message ''event'' = J (JStr ''login'')"
            "field message ''code'' \<noteq> J (JStr ''0'')"
        | (sub) "message \<noteq> JNull" "field message ''event'' = J (JStr ''subscribe'')"
        | (err) "message \<noteq> JNull" "field message ''event'' = J (JStr ''error'')"
        | (orders) "message \<noteq> JNull" "field message ''event'' \<noteq> J (JStr ''login'')"
            "field message ''event'' \<noteq> J (JStr ''subscribe'')"
            "field message ''event'' \<noteq> J (JStr ''error'')"
            "opt_field (field message ''arg'') ''channel'' = J (JStr ''orders'')
              \<and> truthy (field message ''data'')"
        | (other) "message \<noteq> JNull" "field message ''event'' \<noteq> J (JStr ''login'')"
            "field message ''event'' \<noteq> J (JStr ''subscribe'')"
            "field message ''event'' \<noteq> J (JStr ''error'')"
            "\<not> (opt_field (field message ''arg'') ''channel'' = J (JStr ''orders'')
              \<and> truthy (field message ''data''))"
        by blast
      then show ?thesis
      proof cases
        case null
        then show ?thesis
          by (intro exI [of _ "[]"]) (simp add: handleMessage_try_def ls)
      next
        case ok
        then show ?thesis
          by (cases "ws s")
            (auto simp: handleMessage_try_def ls subscribeOrders_def ws_send_def emit_def)
      next
        case failed
        show ?thesis
        proof (cases "to_string (field message ''msg'')")
          case (Inl e)
          with failed have "handleMessage_try ext message s = (s, Some e)"
            by (simp add: handleMessage_try_def)
          moreover have "\<not> is_login_success ext frame" using failed ls by simp
          ultimately show ?thesis by (intro exI [of _ "[]"]) simp
        next
          case (Inr text_msg)
          with failed have "handleMessage_try ext message s
              = (s\<lparr>effects := effects s @ [Log (logAuth Msg_login_failed False
                         (Fields [(''code'', field message ''code''),
                                  (''msg'', field message ''msg'')]))]\<rparr>, None)"
            by (simp add: handleMessage_try_def emit_def)
          moreover have "\<not> is_login_success ext frame" using failed ls by simp
          ultimately show ?thesis
            by (intro exI [of _ "[Log (logAuth Msg_login_failed False
                         (Fields [(''code'', field message ''code''),
                                  (''msg'', field message ''msg'')]))]"]) simp
        qed
      next
        case sub
        then show ?thesis
          by (auto simp: handleMessage_try_def ls emit_def)
      next
        case err
        have nls: "\<not> is_login_success ext frame" using err ls by simp
        have "handleMessage_try ext message s = (s, snd (handleMessage_try ext message s))
            \<or> handleMessage_try ext message s
              = (s\<lparr>effects := effects s @ [Log (logError SYSTEM Msg_okx_error
                           (Fields [(''code'', field message ''code''),
                                    (''msg'', field message ''msg'')]))]\<rparr>, None)"
          using err by (simp add: handleMessage_try_def emit_def split: sum.splits)
        then show ?thesis
        proof
          assume "handleMessage_try ext message s = (s, snd (handleMessage_try ext message s))"
          then have "fst (handleMessage_try ext message s) = s" by (metis fst_conv)
          with nls show ?thesis by (intro exI [of _ "[]"]) simp
        next
          assume "handleMessage_try ext message s
              = (s\<lparr>effects := effects s @ [Log (logError SYSTEM Msg_okx_error
                           (Fields [(''code'', field message ''code''),
                                    (''msg'', field message ''msg'')]))]\<rparr>, None)"
          with nls show ?thesis
            by (intro exI [of _ "[Log (logError SYSTEM Msg_okx_error
                           (Fields [(''code'', field message ''code''),
                                    (''msg'', field message ''msg'')]))]"]) simp
        qed
      next
        case orders
        then have "handleMessage_try ext message s
            = handleOrderData ext (field message ''data'') s"
          by (simp add: handleMessage_try_def)
        moreover have "\<not> is_login_success ext frame" using orders ls by simp
        ultimately show ?thesis
          using handleOrderData_appends [of ext "field message ''data''" s] by auto
      next
        case other
        then have "handleMessage_try ext message s = (s, None)"
          by (auto simp: handleMessage_try_def)
        moreover have "\<not> is_login_success ext frame" using other ls by simp
        ultimately show ?thesis
          by (intro exI [of _ "[]"]) simp
      qed
    qed
    then obtain es0 where es0: "fst (handleMessage_try ext message s) = s\<lparr>effects := effects s @ es0\<rparr>"
      "created es0 = []"
      "sent es0 = (if is_login_success ext frame
                      then (case ws s of None \<Rightarrow> [] | Some k \<Rightarrow> [(k, Stringify subscribeMessage)])
                      else [])"
      by blast
    from thrown [OF es0(1) es0(2), of "snd (handleMessage_try ext message s)"] es0(3) hm
    show ?thesis by auto
  qed
qed

lemma handleMessage_fields:
  "ws (handleMessage ext frame s) = ws s" "sockets (handleMessage ext frame s) = sockets s"
  "timeouts (handleMessage ext frame s) = timeouts s"
  "reconnectTimeout (handleMessage ext frame s) = reconnectTimeout s"
  "shouldReconnect (handleMessage ext frame s) = shouldReconnect s"
  "pingInterval (handleMessage ext frame s) = pingInterval s"
  "intervals (handleMessage ext frame s) = intervals s"
  "isConnecting (handleMessage ext frame s) = isConnecting s"
  "timers (handleMessage ext frame s) = timers s"
  "created (effects (handleMessage ext frame s)) = created (effects s)"
  using handleMessage_appends [of ext frame s] by (auto simp: created_append)

subsection \<open>Signer\<close>

text \<open>
  Claim C6. For all inputs, \<open>sign\<close> is the base64 keyed hash (HMAC, SHA-256, under the
  configured secret) of the prehash string \<open>timestamp + method + requestPath + body\<close>, in
  that order, the body being empty when it is left out; and equal inputs give equal
  signatures: \<open>sign\<close> reads nothing but its arguments and the secret.
\<close>

theorem sign_is_hmac_of_prehash:
  "sign cfg ext timestamp method requestPath body =
     hmac_sha256_base64 ext (secretKey cfg)
       (timestamp @ method @ requestPath @ (case body of None \<Rightarrow> [] | Some b \<Rightarrow> b))
   \<and> sign cfg ext timestamp method requestPath None
       = sign cfg ext timestamp method requestPath (Some [])
   \<and> (timestamp = timestamp' \<and> method = method' \<and> requestPath = requestPath' \<and> body = body'
        \<longrightarrow> sign cfg ext timestamp method requestPath body
            = sign cfg ext timestamp' method' requestPath' body')"
  by (simp add: sign_def)

theorem sign_is_hmac_of_prehash_witness:
  "sign sample_cfg sample_ext ''1735200600'' ''GET'' ''/users/self/verify'' None
     = ''mac(secret,1735200600GET/users/self/verify)''
   \<and> sign sample_cfg sample_ext ''1735200600'' ''GET'' ''/users/self/verify'' (Some [])
       = ''mac(secret,1735200600GET/users/self/verify)''"
proof -
  have k: "hmac_sha256_base64 sample_ext (secretKey sample_cfg) x = ''mac(secret,'' @ x @ '')''"
    for x
    by (simp add: sample_cfg_def sample_ext_def)
  note t = sign_is_hmac_of_prehash [of sample_cfg sample_ext "''1735200600''" "''GET''"
      "''/users/self/verify''" None "''1735200600''" "''GET''" "''/users/self/verify''" None]
  have e1: "sign sample_cfg sample_ext ''1735200600'' ''GET'' ''/users/self/verify'' None
      = hmac_sha256_base64 sample_ext (secretKey sample_cfg) ''1735200600GET/users/self/verify''"
    using t by simp
  have e2: "sign sample_cfg sample_ext ''1735200600'' ''GET'' ''/users/self/verify'' None
      = sign sample_cfg sample_ext ''1735200600'' ''GET'' ''/users/self/verify'' (Some [])"
    using t by blast
  show ?thesis
    unfolding e2 [symmetric] e1 k by simp
qed

subsection \<open>The connect guard\<close>

text \<open>
  Claim C7. A call of \<open>connectWebSocket\<close> while the guard \<open>isConnecting\<close> is set changes
  nothing; so a call from a state where it is not set, followed by any number of further
  calls while that attempt is in flight, makes exactly one socket.
\<close>

theorem connect_while_connecting_is_noop:
  "(isConnecting s \<longrightarrow> connectWebSocket cfg s = s)
   \<and> (\<not> isConnecting s \<longrightarrow>
        created (effects ((connectWebSocket cfg ^^ n) (connectWebSocket cfg s)))
          = created (effects s) @ [length (sockets s)])"
  by (simp add: connect_when_guarded connect_sets_guard connect_creates_one)
    (simp add: connectWebSocket_def)

theorem connect_while_connecting_is_noop_witness:
  "\<not> isConnecting constructed
   \<and> isConnecting (connectWebSocket sample_cfg constructed)
   \<and> connectWebSocket sample_cfg (connectWebSocket sample_cfg constructed)
       = connectWebSocket sample_cfg constructed
   \<and> created (effects ((connectWebSocket sample_cfg ^^ 2) (connectWebSocket sample_cfg constructed)))
       = [0]"
  using connect_while_connecting_is_noop [of constructed sample_cfg 2]
    connect_while_connecting_is_noop [of "connectWebSocket sample_cfg constructed" sample_cfg 0]
  by (simp add: connect_sets_guard) (simp add: constructed_def)

subsection \<open>Formatting the size\<close>

text \<open>
  Claim C8, as stated, fails: the test is on the text of the average fill price, not on
  its value. A price of zero that is written \<open>0.0\<close> is appended to the size.
\<close>

theorem zero_avgPx_is_appended_counterexample:
  "formatSize (JObj [(''sz'', JStr ''0.1''), (''avgPx'', JStr ''0.0'')])
     = Inr (J (JStr ''0.1 @ 0.0''))"
  by (simp add: formatSize_def json_to_string_def)

text \<open>
  Claim C8, amended. For every order record, the size text handed to the sink is \<open>sz\<close>,
  then " @ ", then \<open>avgPx\<close>, when the average fill price is present, is not the empty
  string and is not the string \<open>0\<close>, and \<open>sz\<close> alone otherwise; the record with
  \<open>sz == "0.1"\<close> and \<open>avgPx == "95000"\<close> yields \<open>0.1 @ 95000\<close>. The first part below says the
  same of any value: where the price is truthy and not the string \<open>0\<close>, the two are
  converted to strings and joined. The size text is the fourth argument of the sink call
  that the dispatcher makes for the record.
\<close>

theorem formatSize_appends_avgPx:
  "(truthy (field order ''avgPx'') \<and> field order ''avgPx'' \<noteq> J (JStr ''0'')
      \<and> to_string (field order ''sz'') = Inr z \<and> to_string (field order ''avgPx'') = Inr a
      \<longrightarrow> formatSize order = Inr (J (JStr (z @ '' @ '' @ a))))
   \<and> (field order ''sz'' = J (JStr sz) \<and> field order ''avgPx'' = J (JStr avgPx)
        \<and> avgPx \<noteq> [] \<and> avgPx \<noteq> ''0''
       \<longrightarrow> formatSize order = Inr (J (JStr (sz @ '' @ '' @ avgPx))))
   \<and> (\<not> truthy (field order ''avgPx'') \<or> field order ''avgPx'' = J (JStr ''0'')
       \<longrightarrow> formatSize order = Inr (field order ''sz''))
   \<and> (render ext order = Inr n \<longrightarrow> formatSize order = Inr (n_size n))
   \<and> (order \<noteq> JNull \<and> render ext order = Inr n \<longrightarrow>
        notified (effects (fst (dispatch ext [order] s))) = notified (effects s) @ [n])"
proof -
  have 1: "formatSize order = Inr (J (JStr (z @ '' @ '' @ a)))"
    if "truthy (field order ''avgPx'')" "field order ''avgPx'' \<noteq> J (JStr ''0'')"
      "to_string (field order ''sz'') = Inr z" "to_string (field order ''avgPx'') = Inr a"
    using that by (auto simp: formatSize_def Let_def)
  have 2: "formatSize order = Inr (J (JStr (sz @ '' @ '' @ avgPx)))"
    if "field order ''sz'' = J (JStr sz)" "field order ''avgPx'' = J (JStr avgPx)"
      "avgPx \<noteq> []" "avgPx \<noteq> ''0''"
    using that by (simp add: formatSize_def Let_def json_to_string_def)
  have 3: "formatSize order = Inr (field order ''sz'')"
    if "\<not> truthy (field order ''avgPx'') \<or> field order ''avgPx'' = J (JStr ''0'')"
    using that by (auto simp: formatSize_def Let_def)
  have 4: "formatSize order = Inr (n_size n)" if "render ext order = Inr n"
    using that by (auto simp: render_def split: sum.splits)
  have 5: "notified (effects (fst (dispatch ext [order] s))) = notified (effects s) @ [n]"
    if "order \<noteq> JNull" "render ext order = Inr n"
    using that by (simp add: Let_def effects_emit notified_append)
  from 1 2 3 4 5 show ?thesis by blast
qed

theorem formatSize_appends_avgPx_witness:
  "OkxOrderData sample_order
   \<and> field sample_order ''sz'' = J (JStr ''0.1'')
   \<and> field sample_order ''avgPx'' = J (JStr ''95000'')
   \<and> formatSize sample_order = Inr (J (JStr ''0.1 @ 95000''))
   \<and> map_sum id n_size (render sample_ext sample_order) = Inr (J (JStr ''0.1 @ 95000''))
   \<and> formatSize (JObj [(''sz'', JStr ''0.1''), (''avgPx'', JStr ''0'')]) = Inr (J (JStr ''0.1''))
   \<and> formatSize (JObj [(''sz'', JStr ''0.1''), (''avgPx'', JStr '''')]) = Inr (J (JStr ''0.1''))
   \<and> formatSize (JObj [(''sz'', JStr ''0.1'')]) = Inr (J (JStr ''0.1''))
   \<and> formatSize (JObj [(''sz'', JStr ''0.1''), (''avgPx'', JNum ''95000'')])
       = Inr (J (JStr ''0.1 @ 95000''))
   \<and> map n_size (notified (effects (fst (dispatch sample_ext [sample_order] constructed))))
       = [J (JStr ''0.1 @ 95000'')]"
proof -
  have r: "OkxOrderData sample_order" by (simp add: sample_order_def OkxOrderData_fields_def)
  have a: "field sample_order ''sz'' = J (JStr ''0.1'')"
    and b: "field sample_order ''avgPx'' = J (JStr ''95000'')"
    and c: "sample_order \<noteq> JNull"
    by (simp_all add: sample_order_def)
  obtain n where n: "render sample_ext sample_order = Inr n"
    by (simp add: render_def formatDate_def table_lookup_def formatSize_def json_to_string_def
        sample_order_def ORDER_SIDE_MAP_def ORDER_STATE_MAP_def)
  note t = formatSize_appends_avgPx [of sample_order "''0.1''" "''95000''" "''0.1''" "''95000''"
      sample_ext n constructed]
  have 1: "formatSize sample_order = Inr (J (JStr ''0.1 @ 95000''))"
    using t a b by simp
  have 2: "n_size n = J (JStr ''0.1 @ 95000'')"
    using t n 1 by simp
  have 3: "map n_size (notified (effects (fst (dispatch sample_ext [sample_order] constructed))))
       = [J (JStr ''0.1 @ 95000'')]"
    using t c n 2 by (simp add: constructed_def del: dispatch.simps)
  have 4: "formatSize (JObj [(''sz'', JStr ''0.1''), (''avgPx'', JStr ''0'')])
       = Inr (J (JStr ''0.1''))"
    using formatSize_appends_avgPx
      [of "JObj [(''sz'', JStr ''0.1''), (''avgPx'', JStr ''0'')]" "''0.1''" "''0''" "''0.1''"
        "''0''" sample_ext n constructed]
    by simp
  have 5: "formatSize (JObj [(''sz'', JStr ''0.1''), (''avgPx'', JStr '''')])
       = Inr (J (JStr ''0.1''))"
    using formatSize_appends_avgPx
      [of "JObj [(''sz'', JStr ''0.1''), (''avgPx'', JStr '''')]" "''0.1''" "''''" "''0.1''"
        "''''" sample_ext n constructed]
    by simp
  have 6: "formatSize (JObj [(''sz'', JStr ''0.1'')]) = Inr (J (JStr ''0.1''))"
    using formatSize_appends_avgPx
      [of "JObj [(''sz'', JStr ''0.1'')]" "''0.1''" "''''" "''0.1''" "''''" sample_ext n
        constructed]
    by (simp add: Object_prototype_def)
  have 7: "formatSize (JObj [(''sz'', JStr ''0.1''), (''avgPx'', JNum ''95000'')])
       = Inr (J (JStr ''0.1 @ 95000''))"
    using formatSize_appends_avgPx
      [of "JObj [(''sz'', JStr ''0.1''), (''avgPx'', JNum ''95000'')]" "''0.1''" "''95000''"
        "''0.1''" "''95000''" sample_ext n constructed]
    by (simp add: json_to_string_def)
  have 8: "map_sum id n_size (render sample_ext sample_order) = Inr (J (JStr ''0.1 @ 95000''))"
    using n 2 by simp
  show ?thesis using r a b 1 2 3 4 5 6 7 8 by blast
qed

subsection \<open>The heartbeat reply\<close>

text \<open>
  Claim C9. On the text frame \<open>pong\<close> the message handler returns at once: the state is
  the one before, so no field changes, nothing is sent, logged or dispatched; this holds
  for the \<open>message\<close> event of any socket.
\<close>

theorem pong_is_consumed:
  "handleMessage ext ''pong'' s = s \<and> deliver cfg ext (Ev_message k ''pong'') s = s"
  by (simp add: handleMessage_def)

subsection \<open>Dispatch of order data\<close>






subsection \<open>Precedence of the event field\<close>

text \<open>
  Claim C10. For every parsed frame whose \<open>event\<close> is \<open>login\<close>, \<open>subscribe\<close> or \<open>error\<close>, the
  handler makes no sink call, whatever else the object carries: the event branches
  return before the orders test is reached.
\<close>

theorem event_frames_notify_nothing:
  assumes "JSON_parse ext frame = Inr message"
    and "field message ''event''
           \<in> {J (JStr ''login''), J (JStr ''subscribe''), J (JStr ''error'')}"
  shows "notified (effects (handleMessage ext frame s)) = notified (effects s)"
proof (cases "frame = ''pong''")
  case True
  then show ?thesis by (simp add: handleMessage_def)
next
  case False
  have nn: "message \<noteq> JNull" using assms(2) by auto
  have only_logs: "notified (effects (case thrown of None \<Rightarrow> s'
           | Some e \<Rightarrow> emit (Log (logError SYSTEM Msg_parse_failed
                       (Fields [(''error'', J (JStr (error_message e))),
                                (''rawMessage'', J (JStr (take 500 frame)))]))) s'))
        = notified (effects s')" for thrown s'
    by (cases thrown) (simp_all add: effects_emit notified_append)
  have "notified (effects (fst (handleMessage_try ext message s))) = notified (effects s)"
    using assms(2) nn
    by (auto simp: handleMessage_try_def subscribeOrders_def ws_send_def effects_emit
        notified_append split: option.splits sum.splits)
  moreover have "handleMessage ext frame s =
        (case snd (handleMessage_try ext message s) of
           None \<Rightarrow> fst (handleMessage_try ext message s)
         | Some e \<Rightarrow> emit (Log (logError SYSTEM Msg_parse_failed
                       (Fields [(''error'', J (JStr (error_message e))),
                                (''rawMessage'', J (JStr (take 500 frame)))])))
                     (fst (handleMessage_try ext message s)))"
    using False assms(1)
    by (cases "handleMessage_try ext message s")
      (auto simp: handleMessage_def split: option.splits)
  ultimately show ?thesis using only_logs by simp
qed

theorem event_frames_notify_nothing_witness:
  "JSON_parse sample_ext frame_error_orders
     = Inr (JObj [(''event'', JStr ''error''), (''code'', JStr ''60012''),
                  (''msg'', JStr ''Bad request''),
                  (''arg'', JObj [(''channel'', JStr ''orders'')]),
                  (''data'', JArr [sample_order])])
   \<and> notified (effects (handleMessage sample_ext frame_error_orders constructed)) = []"
proof -
  let ?m = "JObj [(''event'', JStr ''error''), (''code'', JStr ''60012''),
                  (''msg'', JStr ''Bad request''),
                  (''arg'', JObj [(''channel'', JStr ''orders'')]),
                  (''data'', JArr [sample_order])]"
  have h1: "JSON_parse sample_ext frame_error_orders = Inr ?m"
    by (simp add: sample_defs)
  have h2: "field ?m ''event'' \<in> {J (JStr ''login''), J (JStr ''subscribe''), J (JStr ''error'')}"
    by simp
  show ?thesis
    using h1 event_frames_notify_nothing [OF h1 h2, of constructed]
    by (simp add: constructed_def)
qed

subsection \<open>Frames of no known shape\<close>







subsection \<open>The sample run\<close>

lemma sample_opened_fields:
  "ws sample_opened = Some 0" "pingInterval sample_opened = Some 0"
  "reconnectTimeout sample_opened = None" "\<not> isConnecting sample_opened"
  "shouldReconnect sample_opened" "sockets sample_opened = [OPEN]" "timers sample_opened = 1"
  "intervals sample_opened = {0}" "timeouts sample_opened = {}"
  "created (effects sample_opened) = [0]"
  "sent (effects sample_opened)
     = [(0, Stringify (loginMessage sample_cfg sample_ext 1735200600000))]"
  by (simp_all add: sample_opened_def onModuleInit_def connectWebSocket_def cleanup_def
      on_open_def startPing_def ws_send_def emit_def Let_def constructed_def)

lemma sample_opened_run:
  "run sample_cfg sample_ext [Ev_open 0 1735200600000] (onModuleInit sample_cfg constructed)
     = Some sample_opened"
  by (simp add: sample_opened_def)
    (simp add: onModuleInit_def connectWebSocket_def cleanup_def emit_def Let_def constructed_def)

lemma sample_closed_fields:
  "ws sample_closed = Some 0" "pingInterval sample_closed = Some 0"
  "intervals sample_closed = {0}" "reconnectTimeout sample_closed = Some 1"
  "timeouts sample_closed = {1}" "\<not> isConnecting sample_closed"
  "sockets sample_closed = [CLOSED]" "created (effects sample_closed) = [0]"
  by (simp_all add: sample_closed_def on_close_fields sample_opened_fields)
    (simp_all add: on_close_def scheduleReconnect_def emit_def Let_def sample_opened_fields)

lemma sample_stopped_fields:
  "ws sample_stopped = None" "\<not> shouldReconnect sample_stopped"
  "timeouts sample_stopped = {}" "intervals sample_stopped = {}"
  "sockets sample_stopped = [CLOSING]" "created (effects sample_stopped) = [0]"
  "sent (effects sample_stopped) = sent (effects sample_opened)"
  by (simp_all add: sample_stopped_def destroy_fields sample_opened_fields cleanup_sockets)
    (simp add: onModuleDestroy_def cleanup_def emit_def ws_close_def Let_def sent_append
      sample_opened_fields)

subsection \<open>Close, error and the reconnect timer\<close>

text \<open>
  Claim C3, as stated, fails. After \<open>open\<close>, a \<open>close\<close> event leaves the heartbeat interval
  armed and the socket reference set; and an \<open>error\<close> event arms no reconnect timer.
\<close>

theorem close_keeps_heartbeat_and_socket_counterexample:
  "map_option ws
     (run sample_cfg sample_ext [Ev_open 0 1735200600000, Ev_close 0 1006 []]
        (onModuleInit sample_cfg constructed)) = Some (Some 0)
   \<and> map_option pingInterval
     (run sample_cfg sample_ext [Ev_open 0 1735200600000, Ev_close 0 1006 []]
        (onModuleInit sample_cfg constructed)) = Some (Some 0)
   \<and> map_option intervals
     (run sample_cfg sample_ext [Ev_open 0 1735200600000, Ev_close 0 1006 []]
        (onModuleInit sample_cfg constructed)) = Some {0}
   \<and> map_option timeouts
     (run sample_cfg sample_ext [Ev_open 0 1735200600000, Ev_error 0 ''read ECONNRESET'']
        (onModuleInit sample_cfg constructed)) = Some {}"
  by (simp add: onModuleInit_def connectWebSocket_def cleanup_def on_open_def on_close_def
      on_error_def scheduleReconnect_def startPing_def ws_send_def emit_def Let_def
      constructed_def)

text \<open>
  Claim C3, amended. On every socket \<open>close\<close> event the manager clears the connecting
  guard and, if the reconnect-allowed flag is true, arms a reconnect timer with a fixed
  delay of 5000 ms; the heartbeat interval and the socket reference are left as they
  are. When that timer fires and the guard is clear, \<open>connectWebSocket\<close> runs: its
  \<open>cleanup\<close> cancels the heartbeat interval and clears the socket reference, and a new
  socket is made. A socket \<open>error\<close> event only clears the connecting guard.
\<close>

theorem close_arms_reconnect_timer:
  "(let s' = deliver cfg ext (Ev_close k code reason) s in
      ws s' = ws s \<and> pingInterval s' = pingInterval s \<and> intervals s' = intervals s
      \<and> \<not> isConnecting s'
      \<and> (shouldReconnect s \<longrightarrow>
            reconnectTimeout s' = Some (timers s)
            \<and> timeouts s' = insert (timers s) (timeouts s)
            \<and> last (effects s') = Set_timeout (timers s) 5000)
      \<and> (\<not> shouldReconnect s \<longrightarrow>
            reconnectTimeout s' = reconnectTimeout s \<and> timeouts s' = timeouts s))
   \<and> (let s' = deliver cfg ext (Ev_timeout h) s in
        \<not> isConnecting s \<longrightarrow>
          ws s' = Some (length (sockets s)) \<and> pingInterval s' = None
          \<and> reconnectTimeout s' = None
          \<and> intervals s' = intervals s - set_option (pingInterval s)
          \<and> created (effects s') = created (effects s) @ [length (sockets s)])
   \<and> (let s' = deliver cfg ext (Ev_error k m) s in
        ws s' = ws s \<and> pingInterval s' = pingInterval s \<and> intervals s' = intervals s
        \<and> reconnectTimeout s' = reconnectTimeout s \<and> timeouts s' = timeouts s
        \<and> \<not> isConnecting s')"
proof -
  have a: "let s' = deliver cfg ext (Ev_close k code reason) s in
      ws s' = ws s \<and> pingInterval s' = pingInterval s \<and> intervals s' = intervals s
      \<and> \<not> isConnecting s'
      \<and> (shouldReconnect s \<longrightarrow>
            reconnectTimeout s' = Some (timers s)
            \<and> timeouts s' = insert (timers s) (timeouts s)
            \<and> last (effects s') = Set_timeout (timers s) 5000)
      \<and> (\<not> shouldReconnect s \<longrightarrow>
            reconnectTimeout s' = reconnectTimeout s \<and> timeouts s' = timeouts s)"
    by (simp add: on_close_def scheduleReconnect_def emit_def Let_def)
  have b: "let s' = deliver cfg ext (Ev_timeout h) s in
        \<not> isConnecting s \<longrightarrow>
          ws s' = Some (length (sockets s)) \<and> pingInterval s' = None
          \<and> reconnectTimeout s' = None
          \<and> intervals s' = intervals s - set_option (pingInterval s)
          \<and> created (effects s') = created (effects s) @ [length (sockets s)]"
    by (simp add: connectWebSocket_def Let_def emit_def cleanup_fields cleanup_sockets_length
        cleanup_created created_append)
  have c: "let s' = deliver cfg ext (Ev_error k m) s in
        ws s' = ws s \<and> pingInterval s' = pingInterval s \<and> intervals s' = intervals s
        \<and> reconnectTimeout s' = reconnectTimeout s \<and> timeouts s' = timeouts s
        \<and> \<not> isConnecting s'"
    by (simp add: on_error_def emit_def)
  from a b c show ?thesis by blast
qed

theorem close_arms_reconnect_timer_witness:
  "shouldReconnect sample_opened
   \<and> ws sample_closed = Some 0 \<and> pingInterval sample_closed = Some 0
   \<and> intervals sample_closed = {0}
   \<and> reconnectTimeout sample_closed = Some 1 \<and> timeouts sample_closed = {1}
   \<and> last (effects sample_closed) = Set_timeout 1 5000
   \<and> \<not> isConnecting sample_closed
   \<and> ws sample_reopened = Some 1 \<and> pingInterval sample_reopened = None
   \<and> intervals sample_reopened = {}
   \<and> created (effects sample_reopened) = [0, 1]
   \<and> \<not> shouldReconnect sample_stopped
   \<and> timeouts (deliver sample_cfg sample_ext (Ev_close 0 1000 []) sample_stopped) = {}"
proof -
  note c = close_arms_reconnect_timer [of sample_cfg sample_ext 0 1006 "[]" sample_opened 1
      "''read ECONNRESET''", unfolded Let_def, folded sample_closed_def]
  note r = close_arms_reconnect_timer [of sample_cfg sample_ext 0 1006 "[]" sample_closed 1
      "''read ECONNRESET''", unfolded Let_def, folded sample_reopened_def]
  note d = close_arms_reconnect_timer [of sample_cfg sample_ext 0 1000 "[]" sample_stopped 1
      "''read ECONNRESET''", unfolded Let_def]
  have 1: "last (effects sample_closed) = Set_timeout 1 5000"
    "reconnectTimeout sample_closed = Some 1" "timeouts sample_closed = {1}"
    "ws sample_closed = Some 0" "pingInterval sample_closed = Some 0"
    "intervals sample_closed = {0}" "\<not> isConnecting sample_closed"
    using c by (simp_all add: sample_opened_fields)
  have 2: "ws sample_reopened = Some 1" "pingInterval sample_reopened = None"
    "intervals sample_reopened = {}" "created (effects sample_reopened) = [0, 1]"
    using r 1(7) by (simp_all add: sample_closed_fields)
  have 3: "timeouts (deliver sample_cfg sample_ext (Ev_close 0 1000 []) sample_stopped) = {}"
    using d by (simp add: sample_stopped_fields)
  show ?thesis
    using 1 2 3 sample_opened_fields(5) sample_stopped_fields(2) by blast
qed

subsection \<open>Invariants of a run\<close>

lemma live_of_closed: "live_of (xs[k := CLOSED]) = live_of xs - {k}"
  by (cases "k < length xs") (auto simp: live_of_def nth_list_update)

lemma live_of_update:
  "k < length xs \<Longrightarrow> st \<noteq> CLOSED \<Longrightarrow> live_of (xs[k := st]) = insert k (live_of xs)"
  by (auto simp: live_of_def nth_list_update)

lemma live_of_append: "live_of (xs @ [CONNECTING]) = insert (length xs) (live_of xs)"
  by (auto simp: live_of_def nth_append less_Suc_eq)

lemma cleanup_live: "live_of (sockets (cleanup s)) = live_of (sockets s)"
  by (auto simp: cleanup_sockets live_of_def nth_list_update split: option.splits)

lemma cleanup_none_connecting:
  assumes "\<forall>k < length (sockets s). sockets s ! k = CONNECTING \<longrightarrow> ws s = Some k"
    and "k < length (sockets s)"
  shows "sockets (cleanup s) ! k \<noteq> CONNECTING"
  using assms by (auto simp: cleanup_sockets nth_list_update split: option.splits)

lemma connect_fields:
  assumes "\<not> isConnecting s"
  shows "ws (connectWebSocket cfg s) = Some (length (sockets s))"
    "sockets (connectWebSocket cfg s) = sockets (cleanup s) @ [CONNECTING]"
    "timeouts (connectWebSocket cfg s) = timeouts s - set_option (reconnectTimeout s)"
    "intervals (connectWebSocket cfg s) = intervals s - set_option (pingInterval s)"
    "reconnectTimeout (connectWebSocket cfg s) = None"
    "pingInterval (connectWebSocket cfg s) = None"
    "shouldReconnect (connectWebSocket cfg s) = shouldReconnect s"
  using assms
  by (auto simp: connectWebSocket_def Let_def emit_def cleanup_fields cleanup_sockets_length
      cleanup_sockets split: option.splits)

lemma run_invD:
  assumes "run_inv s"
  shows "timeouts s \<subseteq> set_option (reconnectTimeout s)"
    and "intervals s \<subseteq> set_option (pingInterval s)"
    and "timeouts s = {} \<or> live_of (sockets s) = {}"
    and "j \<in> live_of (sockets s) \<Longrightarrow> k \<in> live_of (sockets s) \<Longrightarrow> j = k"
    and "k < length (sockets s) \<Longrightarrow> sockets s ! k = CONNECTING \<Longrightarrow> ws s = Some k"
    and "k < length (sockets s) \<Longrightarrow> sockets s ! k = CONNECTING \<Longrightarrow> intervals s = {}"
  using assms unfolding run_inv_def by blast+

lemma run_invI:
  assumes "timeouts s \<subseteq> set_option (reconnectTimeout s)"
    and "intervals s \<subseteq> set_option (pingInterval s)"
    and "timeouts s = {} \<or> live_of (sockets s) = {}"
    and "\<And>j k. j \<in> live_of (sockets s) \<Longrightarrow> k \<in> live_of (sockets s) \<Longrightarrow> j = k"
    and "\<And>k. k < length (sockets s) \<Longrightarrow> sockets s ! k = CONNECTING
           \<Longrightarrow> ws s = Some k \<and> intervals s = {}"
  shows "run_inv s"
  using assms unfolding run_inv_def by blast

lemma connect_inv:
  assumes "timeouts s \<subseteq> set_option (reconnectTimeout s)"
    and "intervals s \<subseteq> set_option (pingInterval s)"
    and "live_of (sockets s) = {}"
  shows "run_inv (connectWebSocket cfg s)"
proof (cases "isConnecting s")
  case True
  have "sockets s ! k = CLOSED" if "k < length (sockets s)" for k
    using assms(3) that by (auto simp: live_of_def)
  then have "run_inv s"
    using assms by (intro run_invI) (auto simp: live_of_def)
  then show ?thesis
    using True by (simp add: connectWebSocket_def)
next
  case False
  have closed: "sockets s ! k = CLOSED" if "k < length (sockets s)" for k
    using assms(3) that by (auto simp: live_of_def)
  have same: "sockets (cleanup s) = sockets s"
    using closed by (auto simp: cleanup_sockets split: option.splits)
  have "timeouts s - set_option (reconnectTimeout s) = {}"
    "intervals s - set_option (pingInterval s) = {}"
    using assms(1,2) by auto
  then show ?thesis
    using False assms(3) closed
    by (auto simp: run_inv_def connect_fields same live_of_append nth_append)
qed

lemma init_inv: "run_inv (onModuleInit cfg constructed)"
  unfolding onModuleInit_def
  by (rule connect_inv) (simp_all add: emit_def constructed_def live_of_def)

lemma run_inv_cong:
  assumes "timeouts s' = timeouts s" "reconnectTimeout s' = reconnectTimeout s"
    "intervals s' = intervals s" "pingInterval s' = pingInterval s" "sockets s' = sockets s"
    "ws s' = ws s"
  shows "run_inv s' = run_inv s"
  unfolding run_inv_def assms ..

lemma inv_open:
  assumes "run_inv s" and k: "k < length (sockets s)" "sockets s ! k = CONNECTING"
  shows "run_inv (on_open cfg ext now (s\<lparr>sockets := (sockets s)[k := OPEN]\<rparr>))"
proof -
  have cur: "ws s = Some k" "intervals s = {}"
    using run_invD(5,6) [OF assms(1) k] by simp_all
  have kl: "k \<in> live_of (sockets s)" using k by (simp add: live_of_def)
  have lv: "live_of ((sockets s)[k := OPEN]) = live_of (sockets s)"
    using k kl by (simp add: live_of_update insert_absorb)
  have nc: "(sockets s)[k := OPEN] ! j \<noteq> CONNECTING" if "j < length (sockets s)" for j
  proof (cases "j = k")
    case True
    then show ?thesis using k by simp
  next
    case False
    have "sockets s ! j \<noteq> CONNECTING"
    proof
      assume "sockets s ! j = CONNECTING"
      from run_invD(5) [OF assms(1) that this] cur(1) False show False by simp
    qed
    with False show ?thesis by simp
  qed
  let ?s = "s\<lparr>sockets := (sockets s)[k := OPEN]\<rparr>"
  show ?thesis
  proof (rule run_invI)
    show "timeouts (on_open cfg ext now ?s) \<subseteq> set_option (reconnectTimeout (on_open cfg ext now ?s))"
      using run_invD(1) [OF assms(1)] by (simp add: on_open_fields)
    show "intervals (on_open cfg ext now ?s) \<subseteq> set_option (pingInterval (on_open cfg ext now ?s))"
      using cur(2) by (simp add: on_open_fields)
    show "timeouts (on_open cfg ext now ?s) = {} \<or> live_of (sockets (on_open cfg ext now ?s)) = {}"
      using run_invD(3) [OF assms(1)] by (simp add: on_open_fields lv)
    show "j = k'" if "j \<in> live_of (sockets (on_open cfg ext now ?s))"
      "k' \<in> live_of (sockets (on_open cfg ext now ?s))" for j k'
      using that run_invD(4) [OF assms(1), of j k'] by (simp add: on_open_fields lv)
    show "ws (on_open cfg ext now ?s) = Some k' \<and> intervals (on_open cfg ext now ?s) = {}"
      if "k' < length (sockets (on_open cfg ext now ?s))"
        "sockets (on_open cfg ext now ?s) ! k' = CONNECTING" for k'
      using that nc [of k'] by (simp add: on_open_fields)
  qed
qed

lemma inv_error:
  assumes "run_inv s" and k: "k < length (sockets s)" "sockets s ! k \<noteq> CLOSED"
  shows "run_inv (on_error m (s\<lparr>sockets := (sockets s)[k := CLOSING]\<rparr>))"
proof -
  have "k \<in> live_of (sockets s)" using k by (simp add: live_of_def)
  then have lv: "live_of ((sockets s)[k := CLOSING]) = live_of (sockets s)"
    using k by (simp add: live_of_update insert_absorb)
  have nc: "sockets s ! j = CONNECTING" if "(sockets s)[k := CLOSING] ! j = CONNECTING" for j
    using that k(1) by (cases "j = k") simp_all
  let ?s = "on_error m (s\<lparr>sockets := (sockets s)[k := CLOSING]\<rparr>)"
  show "run_inv ?s"
  proof (rule run_invI)
    show "timeouts ?s \<subseteq> set_option (reconnectTimeout ?s)"
      using run_invD(1) [OF assms(1)] by (simp add: on_error_fields)
    show "intervals ?s \<subseteq> set_option (pingInterval ?s)"
      using run_invD(2) [OF assms(1)] by (simp add: on_error_fields)
    show "timeouts ?s = {} \<or> live_of (sockets ?s) = {}"
      using run_invD(3) [OF assms(1)] by (simp add: on_error_fields lv)
    show "j = k'" if "j \<in> live_of (sockets ?s)" "k' \<in> live_of (sockets ?s)" for j k'
      using that run_invD(4) [OF assms(1), of j k'] by (simp add: on_error_fields lv)
    show "ws ?s = Some k' \<and> intervals ?s = {}"
      if "k' < length (sockets ?s)" "sockets ?s ! k' = CONNECTING" for k'
    proof -
      from that have a: "k' < length (sockets s)" and b: "sockets s ! k' = CONNECTING"
        using nc [of k'] by (simp_all add: on_error_fields)
      from run_invD(5,6) [OF assms(1) a b] show ?thesis by (simp add: on_error_fields)
    qed
  qed
qed

lemma inv_close:
  assumes "run_inv s" and k: "k < length (sockets s)" "sockets s ! k \<noteq> CLOSED"
  shows "run_inv (on_close code reason (s\<lparr>sockets := (sockets s)[k := CLOSED]\<rparr>))"
proof -
  have kl: "k \<in> live_of (sockets s)" using k by (simp add: live_of_def)
  have one: "live_of (sockets s) = {k}"
    using kl run_invD(4) [OF assms(1) _ kl] by blast
  have none: "timeouts s = {}"
    using kl run_invD(3) [OF assms(1)] by blast
  have lv: "live_of ((sockets s)[k := CLOSED]) = {}"
    using one by (simp add: live_of_closed)
  have nc: "sockets s ! j = CONNECTING" if "(sockets s)[k := CLOSED] ! j = CONNECTING" for j
    using that k(1) by (cases "j = k") simp_all
  let ?s = "on_close code reason (s\<lparr>sockets := (sockets s)[k := CLOSED]\<rparr>)"
  show "run_inv ?s"
  proof (rule run_invI)
    show "timeouts ?s \<subseteq> set_option (reconnectTimeout ?s)"
      using none by (simp add: on_close_fields)
    show "intervals ?s \<subseteq> set_option (pingInterval ?s)"
      using run_invD(2) [OF assms(1)] by (simp add: on_close_fields)
    show "timeouts ?s = {} \<or> live_of (sockets ?s) = {}"
      by (simp add: on_close_fields lv)
    show "j = k'" if "j \<in> live_of (sockets ?s)" "k' \<in> live_of (sockets ?s)" for j k'
      using that by (simp add: on_close_fields lv)
    show "ws ?s = Some k' \<and> intervals ?s = {}"
      if "k' < length (sockets ?s)" "sockets ?s ! k' = CONNECTING" for k'
    proof -
      from that have a: "k' < length (sockets s)" and b: "sockets s ! k' = CONNECTING"
        using nc [of k'] by (simp_all add: on_close_fields)
      from run_invD(5,6) [OF assms(1) a b] show ?thesis by (simp add: on_close_fields)
    qed
  qed
qed

lemma inv_timeout:
  assumes "run_inv s" and "h \<in> timeouts s"
  shows "run_inv (connectWebSocket cfg (s\<lparr>timeouts := timeouts s - {h}\<rparr>))"
proof -
  have "live_of (sockets s) = {}"
    using run_invD(3) [OF assms(1)] assms(2) by blast
  moreover have "timeouts s - {h} \<subseteq> set_option (reconnectTimeout s)"
    using run_invD(1) [OF assms(1)] by blast
  ultimately show ?thesis
    using run_invD(2) [OF assms(1)] by (intro connect_inv) simp_all
qed

lemma inv_destroy:
  assumes "run_inv s"
  shows "run_inv (onModuleDestroy s)"
proof -
  have nc: "sockets (cleanup s) ! k \<noteq> CONNECTING" if "k < length (sockets s)" for k
    using cleanup_none_connecting [of s k] that run_invD(5) [OF assms(1)] by blast
  have e: "timeouts s - set_option (reconnectTimeout s) = {}"
    "intervals s - set_option (pingInterval s) = {}"
    using run_invD(1,2) [OF assms(1)] by blast+
  show ?thesis
  proof (rule run_invI)
    show "timeouts (onModuleDestroy s) \<subseteq> set_option (reconnectTimeout (onModuleDestroy s))"
      using e by (simp add: destroy_fields)
    show "intervals (onModuleDestroy s) \<subseteq> set_option (pingInterval (onModuleDestroy s))"
      using e by (simp add: destroy_fields)
    show "timeouts (onModuleDestroy s) = {} \<or> live_of (sockets (onModuleDestroy s)) = {}"
      using e by (simp add: destroy_fields)
    show "j = k" if "j \<in> live_of (sockets (onModuleDestroy s))"
      "k \<in> live_of (sockets (onModuleDestroy s))" for j k
      using that run_invD(4) [OF assms(1), of j k] by (simp add: destroy_fields cleanup_live)
    show "ws (onModuleDestroy s) = Some k \<and> intervals (onModuleDestroy s) = {}"
      if "k < length (sockets (onModuleDestroy s))"
        "sockets (onModuleDestroy s) ! k = CONNECTING" for k
      using that nc [of k] by (simp add: destroy_fields cleanup_sockets_length)
  qed
qed

lemma inv_step:
  assumes "run_inv s" and "enabled s e"
  shows "run_inv (deliver cfg ext e s)"
proof (cases e)
  case (Ev_open k now)
  with assms inv_open [of s k cfg ext now] show ?thesis by simp
next
  case (Ev_message k frame)
  then show ?thesis
    using assms(1) run_inv_cong [of "handleMessage ext frame s" s]
    by (simp add: handleMessage_fields)
next
  case (Ev_error k m)
  with assms inv_error [of s k m] show ?thesis by simp
next
  case (Ev_close k code reason)
  with assms inv_close [of s k code reason] show ?thesis by simp
next
  case (Ev_tick h)
  then show ?thesis
    using assms(1) run_inv_cong [of "on_ping s" s] by (simp add: on_ping_fields)
next
  case (Ev_timeout h)
  with assms inv_timeout [of s h cfg] show ?thesis by simp
next
  case Ev_destroy
  with assms inv_destroy [of s] show ?thesis by simp
qed

lemma inv_run:
  "run_inv s \<Longrightarrow> run cfg ext evs s = Some s' \<Longrightarrow> run_inv s'"
proof (induction evs arbitrary: s)
  case Nil
  then show ?case by simp
next
  case (Cons e evs)
  then have en: "enabled s e" and rest: "run cfg ext evs (deliver cfg ext e s) = Some s'"
    by (auto split: if_splits)
  from Cons.IH [OF inv_step [OF Cons.prems(1) en] rest] show ?case .
qed

lemma stopped_step:
  assumes "stopped s" and "enabled s e"
  shows "stopped (deliver cfg ext e s)
         \<and> created (effects (deliver cfg ext e s)) = created (effects s)"
proof (cases e)
  case (Ev_open k now)
  with assms have "k < length (sockets s)" "sockets s ! k = CONNECTING"
    "\<forall>k < length (sockets s). sockets s ! k \<noteq> CONNECTING"
    by (simp_all add: stopped_def)
  then show ?thesis by blast
next
  case (Ev_message k frame)
  with assms show ?thesis by (simp add: stopped_def handleMessage_fields)
next
  case (Ev_error k m)
  have "sockets s ! j \<noteq> CONNECTING \<Longrightarrow> (sockets s)[k := CLOSING] ! j \<noteq> CONNECTING" for j
    using Ev_error assms(2) by (cases "j = k") simp_all
  with Ev_error assms show ?thesis by (simp add: stopped_def on_error_fields)
next
  case (Ev_close k code reason)
  have "sockets s ! j \<noteq> CONNECTING \<Longrightarrow> (sockets s)[k := CLOSED] ! j \<noteq> CONNECTING" for j
    using Ev_close assms(2) by (cases "j = k") simp_all
  with Ev_close assms show ?thesis by (simp add: stopped_def on_close_fields)
next
  case (Ev_tick h)
  with assms show ?thesis by (simp add: stopped_def)
next
  case (Ev_timeout h)
  with assms show ?thesis by (simp add: stopped_def)
next
  case Ev_destroy
  have "sockets (cleanup s) = sockets s"
    using assms(1) by (simp add: cleanup_sockets stopped_def)
  with Ev_destroy assms show ?thesis by (simp add: stopped_def destroy_fields)
qed

lemma stopped_run:
  "stopped s \<Longrightarrow> run cfg ext evs s = Some s' \<Longrightarrow>
   stopped s' \<and> created (effects s') = created (effects s)"
proof (induction evs arbitrary: s)
  case Nil
  then show ?case by simp
next
  case (Cons e evs)
  then have en: "enabled s e" and rest: "run cfg ext evs (deliver cfg ext e s) = Some s'"
    by (auto split: if_splits)
  from stopped_step [OF Cons.prems(1) en, of cfg ext] Cons.IH [OF _ rest]
  show ?case by simp
qed

lemma destroy_stops:
  assumes "run_inv s"
  shows "stopped (onModuleDestroy s)"
proof -
  have nc: "sockets (cleanup s) ! k \<noteq> CONNECTING" if "k < length (sockets s)" for k
    using cleanup_none_connecting [of s k] that assms by (auto simp: run_inv_def)
  have "timeouts s - set_option (reconnectTimeout s) = {}"
    "intervals s - set_option (pingInterval s) = {}"
    using assms by (auto simp: run_inv_def)
  then show ?thesis
    using nc by (simp add: stopped_def destroy_fields cleanup_sockets_length)
qed

subsection \<open>Shutdown\<close>

lemma cleanup_closes: "ws s = Some k \<Longrightarrow> Ws_close k \<in> set (effects (cleanup s))"
  by (simp add: cleanup_def Let_def emit_def ws_close_def split: option.splits)

text \<open>
  Claim C4. \<open>onModuleDestroy\<close> turns the reconnect-allowed flag off, cancels the heartbeat
  interval and the reconnect timeout whose handles are stored, closes the socket the
  reference points to, and clears all three references. In every run that starts with
  \<open>onModuleInit\<close>, whatever events come after the shutdown (socket events, \<open>close\<close>
  included, and timers, which stand for elapsed time): no socket is made any more, no
  timer is armed, reconnection stays off and the socket reference stays empty. The
  runtime delivers a \<open>close\<close> event at most once per socket and fires only armed timers.
\<close>

theorem shutdown_is_final:
  "(let s' = onModuleDestroy s in
      \<not> shouldReconnect s' \<and> pingInterval s' = None \<and> reconnectTimeout s' = None
      \<and> ws s' = None
      \<and> intervals s' = intervals s - set_option (pingInterval s)
      \<and> timeouts s' = timeouts s - set_option (reconnectTimeout s)
      \<and> (\<forall>k. ws s = Some k \<longrightarrow> Ws_close k \<in> set (effects s')))
   \<and> (run cfg ext before (onModuleInit cfg constructed) = Some s1
        \<and> run cfg ext later (deliver cfg ext Ev_destroy s1) = Some s2
       \<longrightarrow> created (effects s2) = created (effects s1)
           \<and> \<not> shouldReconnect s2 \<and> timeouts s2 = {} \<and> intervals s2 = {} \<and> ws s2 = None)"
proof -
  have a: "let s' = onModuleDestroy s in
      \<not> shouldReconnect s' \<and> pingInterval s' = None \<and> reconnectTimeout s' = None
      \<and> ws s' = None
      \<and> intervals s' = intervals s - set_option (pingInterval s)
      \<and> timeouts s' = timeouts s - set_option (reconnectTimeout s)
      \<and> (\<forall>k. ws s = Some k \<longrightarrow> Ws_close k \<in> set (effects s'))"
    using cleanup_closes [of "(emit (Log (logSystem INFO Msg_service_destroy No_data)) s)
                \<lparr>shouldReconnect := False\<rparr>"]
    by (simp add: destroy_fields Let_def) (simp add: onModuleDestroy_def emit_def)
  have b: "created (effects s2) = created (effects s1)
           \<and> \<not> shouldReconnect s2 \<and> timeouts s2 = {} \<and> intervals s2 = {} \<and> ws s2 = None"
    if r1: "run cfg ext before (onModuleInit cfg constructed) = Some s1"
      and r2: "run cfg ext later (deliver cfg ext Ev_destroy s1) = Some s2"
  proof -
    have "run_inv s1" using inv_run [OF init_inv r1] .
    then have "stopped (onModuleDestroy s1)" by (rule destroy_stops)
    with r2 have "stopped s2 \<and> created (effects s2) = created (effects (onModuleDestroy s1))"
      using stopped_run [of "onModuleDestroy s1" cfg ext later s2] by simp
    then show ?thesis by (simp add: stopped_def destroy_fields)
  qed
  from a b show ?thesis by blast
qed

theorem shutdown_is_final_witness:
  "run sample_cfg sample_ext [Ev_open 0 1735200600000] (onModuleInit sample_cfg constructed)
     = Some sample_opened
   \<and> run sample_cfg sample_ext [Ev_message 0 frame_login_ok, Ev_close 0 1000 []]
       (deliver sample_cfg sample_ext Ev_destroy sample_opened) = Some sample_after
   \<and> ws sample_opened = Some 0 \<and> pingInterval sample_opened = Some 0
   \<and> intervals sample_opened = {0}
   \<and> Ws_close 0 \<in> set (effects sample_stopped)
   \<and> ws sample_stopped = None \<and> pingInterval sample_stopped = None
   \<and> intervals sample_stopped = {}
   \<and> created (effects sample_after) = [0]
   \<and> \<not> shouldReconnect sample_after \<and> timeouts sample_after = {}
   \<and> intervals sample_after = {} \<and> ws sample_after = None"
proof -
  have r2: "run sample_cfg sample_ext [Ev_message 0 frame_login_ok, Ev_close 0 1000 []]
       (deliver sample_cfg sample_ext Ev_destroy sample_opened) = Some sample_after"
    unfolding sample_stopped_def [symmetric] sample_after_def
    by (simp add: sample_stopped_fields handleMessage_fields)
  note t = shutdown_is_final [of sample_opened sample_cfg sample_ext "[Ev_open 0 1735200600000]"
      sample_opened "[Ev_message 0 frame_login_ok, Ev_close 0 1000 []]" sample_after,
      unfolded Let_def]
  have st: "onModuleDestroy sample_opened = sample_stopped"
    by (simp add: sample_stopped_def)
  have 1: "Ws_close 0 \<in> set (effects sample_stopped)" "ws sample_stopped = None"
    "pingInterval sample_stopped = None" "intervals sample_stopped = {}"
    using t by (simp_all add: st sample_opened_fields)
  have 2: "created (effects sample_after) = [0]" "\<not> shouldReconnect sample_after"
    "timeouts sample_after = {}" "intervals sample_after = {}" "ws sample_after = None"
    using t sample_opened_run r2 by (simp_all add: sample_opened_fields)
  show ?thesis
    using sample_opened_run r2 1 2 sample_opened_fields(1,2,8) by blast
qed

subsection \<open>Login and subscription\<close>

lemma requests_append: "requests (xs @ ys) = requests xs @ requests ys"
  by (induction xs rule: requests.induct) simp_all

lemma on_open_sends_login:
  assumes "ws s = Some k"
  shows "ws (on_open cfg ext now s) = Some k"
    and "sent (effects (on_open cfg ext now s))
           = sent (effects s) @ [(k, Stringify (loginMessage cfg ext now))]"
  using assms
  by (simp_all add: on_open_def Let_def emit_def startPing_def ws_send_def sent_append)

lemma deliver_keeps_socket:
  assumes "keeps_socket e" and "ws s = Some k"
  shows "ws (deliver cfg ext e s) = Some k"
    and "requests (sent (effects (deliver cfg ext e s)))
           = requests (sent (effects s))
             @ (if is_success_event ext e then [(k, subscribeMessage)] else [])"
proof -
  have "ws (deliver cfg ext e s) = Some k
      \<and> requests (sent (effects (deliver cfg ext e s)))
           = requests (sent (effects s))
             @ (if is_success_event ext e then [(k, subscribeMessage)] else [])"
  proof (cases e)
    case (Ev_message j frame)
    obtain es where es: "handleMessage ext frame s = s\<lparr>effects := effects s @ es\<rparr>"
      "sent es = (if is_login_success ext frame
                      then (case ws s of None \<Rightarrow> [] | Some k \<Rightarrow> [(k, Stringify subscribeMessage)])
                      else [])"
      using handleMessage_appends [of ext frame s] by blast
    with Ev_message assms(2) show ?thesis
      by (simp add: sent_append requests_append)
  next
    case (Ev_tick h)
    with assms(2) show ?thesis
      by (simp add: on_ping_def emit_def sent_append requests_append)
  next
    case (Ev_error j m)
    with assms(2) show ?thesis
      by (simp add: on_error_def emit_def sent_append)
  qed (use assms(1) in simp_all)
  then show "ws (deliver cfg ext e s) = Some k"
    and "requests (sent (effects (deliver cfg ext e s)))
           = requests (sent (effects s))
             @ (if is_success_event ext e then [(k, subscribeMessage)] else [])"
    by simp_all
qed

lemma fold_keeps_socket:
  assumes "ws s = Some k" and "\<forall>e \<in> set evs. keeps_socket e"
  shows "requests (sent (effects (fold (deliver cfg ext) evs s)))
           = requests (sent (effects s))
             @ replicate (length (filter (is_success_event ext) evs)) (k, subscribeMessage)"
  using assms
proof (induction evs arbitrary: s)
  case Nil
  then show ?case by simp
next
  case (Cons e evs)
  then have k: "keeps_socket e" and rest: "\<forall>e \<in> set evs. keeps_socket e" by simp_all
  note d = deliver_keeps_socket [OF k Cons.prems(1), of cfg ext]
  from Cons.IH [OF d(1) rest] d(2) show ?case by simp
qed

text \<open>
  Claim C1, as stated, fails in its last part: after a decoded login failure, a login
  success decoded on the same connection still makes the manager send a subscribe
  request. Nothing in the state records that a login failed.
\<close>

theorem subscribe_after_login_failure_counterexample:
  "run sample_cfg sample_ext
     [Ev_open 0 1735200600000, Ev_message 0 frame_login_failed, Ev_message 0 frame_login_ok]
     (onModuleInit sample_cfg constructed) = Some sample_relogin
   \<and> JSON_parse sample_ext frame_login_failed
       = Inr (JObj [(''event'', JStr ''login''), (''code'', JStr ''60009''),
                    (''msg'', JStr ''Login failed.'')])
   \<and> sent (effects sample_relogin)
       = [(0, Stringify (loginMessage sample_cfg sample_ext 1735200600000)),
          (0, Stringify subscribeMessage)]"
proof -
  have en: "enabled (onModuleInit sample_cfg constructed) (Ev_open 0 1735200600000)"
    by (simp add: onModuleInit_def connectWebSocket_def cleanup_def emit_def Let_def
        constructed_def)
  have d0: "deliver sample_cfg sample_ext (Ev_open 0 1735200600000)
      (onModuleInit sample_cfg constructed) = sample_opened"
    by (simp add: sample_opened_def)
  have e1: "enabled sample_opened (Ev_message 0 frame_login_failed)"
    by (simp add: sample_opened_fields)
  have e2: "enabled (deliver sample_cfg sample_ext (Ev_message 0 frame_login_failed) sample_opened)
      (Ev_message 0 frame_login_ok)"
    by (simp add: handleMessage_fields sample_opened_fields)
  have r: "run sample_cfg sample_ext
     [Ev_open 0 1735200600000, Ev_message 0 frame_login_failed, Ev_message 0 frame_login_ok]
     (onModuleInit sample_cfg constructed) = Some sample_relogin"
    by (simp only: run.simps en d0 e1 e2 if_True sample_relogin_def)
  have p: "JSON_parse sample_ext frame_login_failed
       = Inr (JObj [(''event'', JStr ''login''), (''code'', JStr ''60009''),
                    (''msg'', JStr ''Login failed.'')])"
    by (simp add: sample_defs)
  have q: "JSON_parse sample_ext frame_login_ok
       = Inr (JObj [(''event'', JStr ''login''), (''code'', JStr ''0'')])"
    by (simp add: sample_defs)
  have f: "frame_login_failed \<noteq> ''pong''" "frame_login_ok \<noteq> ''pong''"
    by (simp_all add: sample_defs)
  have s: "sent (effects sample_relogin)
       = [(0, Stringify (loginMessage sample_cfg sample_ext 1735200600000)),
          (0, Stringify subscribeMessage)]"
    using p q f
    by (simp add: sample_relogin_def handleMessage_def handleMessage_try_def subscribeOrders_def
        json_to_string_def ws_send_def emit_def sent_append sample_opened_fields)
  from r p s show ?thesis by blast
qed

text \<open>
  Claim C1, amended. On every connection instance, the \<open>open\<close> event makes the manager
  send exactly one login request, and it is sent before any subscribe request; from
  then on, while the socket reference is that socket (through messages, heartbeat
  ticks and socket errors), one subscribe request is sent for each decoded
  login-success frame (parsed object with \<open>event == "login"\<close> and \<open>code == "0"\<close>) and for
  nothing else. A decoded login failure sends nothing and records nothing but one log
  entry, so it does not keep a later login success from being answered with a
  subscribe request. That entry is the login-failure entry of category \<open>AUTH\<close> with the
  frame's \<open>code\<close> and \<open>msg\<close>; when the \<open>msg\<close> of the frame cannot be converted to text (an
  object with a \<open>toString\<close> property of its own, or an array that holds one), the
  conversion throws and the entry is that of a decode fault instead, of category \<open>SYSTEM\<close>
  with the message of the error and the first 500 characters of the raw text. In a run
  that starts with \<open>onModuleInit\<close>, a socket that opens is the one the reference points
  to.
\<close>

theorem login_first_then_subscribe_per_success:
  "(ws s = Some k \<and> (\<forall>e \<in> set evs. keeps_socket e) \<longrightarrow>
      requests (sent (effects (fold (deliver cfg ext) (Ev_open k now # evs) s)))
        = requests (sent (effects s))
          @ (k, loginMessage cfg ext now)
            # replicate (length (filter (is_success_event ext) evs)) (k, subscribeMessage))
   \<and> (frame \<noteq> ''pong'' \<and> JSON_parse ext frame = Inr message
        \<and> field message ''event'' = J (JStr ''login'')
        \<and> field message ''code'' \<noteq> J (JStr ''0'')
       \<longrightarrow> handleMessage ext frame s =
             emit (Log (case to_string (field message ''msg'') of
                          Inr text_msg \<Rightarrow>
                            logAuth Msg_login_failed False
                              (Fields [(''code'', field message ''code''),
                                       (''msg'', field message ''msg'')])
                        | Inl e \<Rightarrow>
                            logError SYSTEM Msg_parse_failed
                              (Fields [(''error'', J (JStr (error_message e))),
                                       (''rawMessage'', J (JStr (take 500 frame)))]))) s)
   \<and> (run cfg ext before (onModuleInit cfg constructed) = Some s1
        \<and> enabled s1 (Ev_open k now)
       \<longrightarrow> ws s1 = Some k)"
proof -
  have a: "requests (sent (effects (fold (deliver cfg ext) (Ev_open k now # evs) s)))
        = requests (sent (effects s))
          @ (k, loginMessage cfg ext now)
            # replicate (length (filter (is_success_event ext) evs)) (k, subscribeMessage)"
    if w: "ws s = Some k" and ks: "\<forall>e \<in> set evs. keeps_socket e"
  proof -
    let ?s = "s\<lparr>sockets := (sockets s)[k := OPEN]\<rparr>"
    have w': "ws ?s = Some k" using w by simp
    note o = on_open_sends_login [OF w', of cfg ext now]
    from fold_keeps_socket [OF o(1) ks, of cfg ext] o(2)
    show ?thesis by (simp add: requests_append)
  qed
  have b: "handleMessage ext frame s =
             emit (Log (case to_string (field message ''msg'') of
                          Inr text_msg \<Rightarrow>
                            logAuth Msg_login_failed False
                              (Fields [(''code'', field message ''code''),
                                       (''msg'', field message ''msg'')])
                        | Inl e \<Rightarrow>
                            logError SYSTEM Msg_parse_failed
                              (Fields [(''error'', J (JStr (error_message e))),
                                       (''rawMessage'', J (JStr (take 500 frame)))]))) s"
    if "frame \<noteq> ''pong''" "JSON_parse ext frame = Inr message"
      "field message ''event'' = J (JStr ''login'')"
      "field message ''code'' \<noteq> J (JStr ''0'')"
  proof -
    have nn: "message \<noteq> JNull" using that(3) by auto
    show ?thesis
    proof (cases "to_string (field message ''msg'')")
      case (Inl e)
      with that nn show ?thesis by (simp add: handleMessage_def handleMessage_try_def)
    next
      case (Inr text_msg)
      with that nn show ?thesis by (simp add: handleMessage_def handleMessage_try_def)
    qed
  qed
  have c: "ws s1 = Some k"
    if r: "run cfg ext before (onModuleInit cfg constructed) = Some s1"
      and en: "enabled s1 (Ev_open k now)"
  proof -
    have "run_inv s1" using inv_run [OF init_inv r] .
    from run_invD(5) [OF this] en show ?thesis by simp
  qed
  from a b c show ?thesis by blast
qed

theorem login_first_then_subscribe_per_success_witness:
  "ws (onModuleInit sample_cfg constructed) = Some 0
   \<and> requests (sent (effects (fold (deliver sample_cfg sample_ext)
        [Ev_open 0 1735200600000, Ev_message 0 frame_login_failed, Ev_tick 0,
         Ev_message 0 frame_login_ok]
        (onModuleInit sample_cfg constructed))))
       = [(0, loginMessage sample_cfg sample_ext 1735200600000), (0, subscribeMessage)]
   \<and> handleMessage sample_ext frame_login_failed sample_opened
       = emit (Log (logAuth Msg_login_failed False
                 (Fields [(''code'', J (JStr ''60009'')), (''msg'', J (JStr ''Login failed.''))])))
           sample_opened
   \<and> JSON_parse sample_ext frame_login_refused
       = Inr (JObj [(''event'', JStr ''login''), (''code'', JStr ''60009''),
                    (''msg'', JObj [(''toString'', JNum ''1'')])])
   \<and> handleMessage sample_ext frame_login_refused sample_opened
       = emit (Log (logError SYSTEM Msg_parse_failed
                 (Fields [(''error'', J (JStr ''Cannot convert object to primitive value'')),
                          (''rawMessage'', J (JStr frame_login_refused))])))
           sample_opened
   \<and> run sample_cfg sample_ext [] (onModuleInit sample_cfg constructed)
       = Some (onModuleInit sample_cfg constructed)
   \<and> enabled (onModuleInit sample_cfg constructed) (Ev_open 0 1735200600000)"
proof -
  let ?init = "onModuleInit sample_cfg constructed"
  let ?m = "JObj [(''event'', JStr ''login''), (''code'', JStr ''60009''),
                  (''msg'', JStr ''Login failed.'')]"
  have i: "sent (effects ?init) = []" "sockets ?init = [CONNECTING]"
    by (simp_all add: onModuleInit_def connectWebSocket_def cleanup_def emit_def Let_def
        constructed_def)
  have en: "enabled ?init (Ev_open 0 1735200600000)" using i by simp
  have r0: "run sample_cfg sample_ext [] ?init = Some ?init" by simp
  have p: "JSON_parse sample_ext frame_login_failed = Inr ?m" by (simp add: sample_defs)
  have f: "frame_login_failed \<noteq> ''pong''" by (simp add: sample_defs)
  have ok: "is_login_success sample_ext frame_login_ok"
    by (simp add: is_login_success_def sample_defs)
  have no: "\<not> is_login_success sample_ext frame_login_failed"
    by (simp add: is_login_success_def sample_defs)
  note t = login_first_then_subscribe_per_success [of ?init 0
      "[Ev_message 0 frame_login_failed, Ev_tick 0, Ev_message 0 frame_login_ok]"
      sample_cfg sample_ext 1735200600000 frame_login_failed ?m "[]" ?init]
  have w: "ws ?init = Some 0" using t r0 en by blast
  have 1: "requests (sent (effects (fold (deliver sample_cfg sample_ext)
        [Ev_open 0 1735200600000, Ev_message 0 frame_login_failed, Ev_tick 0,
         Ev_message 0 frame_login_ok] ?init)))
       = [(0, loginMessage sample_cfg sample_ext 1735200600000), (0, subscribeMessage)]"
    using t w ok no i(1) by (simp del: fold_simps deliver.simps)
  note t2 = login_first_then_subscribe_per_success [of sample_opened 0 "[]"
      sample_cfg sample_ext 1735200600000 frame_login_failed ?m "[]" ?init]
  have 2: "handleMessage sample_ext frame_login_failed sample_opened
       = emit (Log (logAuth Msg_login_failed False
                 (Fields [(''code'', J (JStr ''60009'')), (''msg'', J (JStr ''Login failed.''))])))
           sample_opened"
    using t2 p f by (simp add: json_to_string_def)
  let ?r = "JObj [(''event'', JStr ''login''), (''code'', JStr ''60009''),
                  (''msg'', JObj [(''toString'', JNum ''1'')])]"
  have p3: "JSON_parse sample_ext frame_login_refused = Inr ?r" by (simp add: sample_defs)
  have f3: "frame_login_refused \<noteq> ''pong''" by (simp add: sample_defs)
  have l3: "take 500 frame_login_refused = frame_login_refused"
    by (simp add: frame_login_refused_def)
  note t3 = login_first_then_subscribe_per_success [of sample_opened 0 "[]"
      sample_cfg sample_ext 1735200600000 frame_login_refused ?r "[]" ?init]
  have 3: "handleMessage sample_ext frame_login_refused sample_opened
       = emit (Log (logError SYSTEM Msg_parse_failed
                 (Fields [(''error'', J (JStr ''Cannot convert object to primitive value'')),
                          (''rawMessage'', J (JStr frame_login_refused))])))
           sample_opened"
    using t3 p3 f3 l3 by (simp add: json_to_string_def)
  from w 1 2 p3 3 r0 en show ?thesis by blast
qed

end
